theory Spec2Isabelle
  imports Main "HOL-Library.Word" "HOL-Library.Monad_Syntax"
begin

unbundle bit_operations_syntax

section \<open>Data model of the simulator (simulator.c)\<close>

text \<open>
  The headers \<^verbatim>\<open>microcode/microcode.h\<close> and \<^verbatim>\<open>simulator/simulator.h\<close> are not part of
  the sources. The enumerators and the macro that \<^verbatim>\<open>simulator.c\<close> takes from
  \<^verbatim>\<open>microcode.h\<close> are therefore parameters of the model: the record \<open>mcodes\<close> has one
  field per enumerator, named as in the C code, and every function of the model
  that mentions an enumerator takes the record as its first argument \<open>K\<close>.
  The macro \<^verbatim>\<open>MICROCODE_NEXT\<close> and the function \<^verbatim>\<open>microcode_predecode\<close>, which
  fills a \<^verbatim>\<open>struct microcode\<close> from the system type, the MPC, the MIR and the
  current task, are two more fields of that record.
\<close>

text \<open>
  \<^verbatim>\<open>enum system_type\<close>. The sources name \<^verbatim>\<open>ALTO_I\<close> and \<^verbatim>\<open>ALTO_II_3KRAM\<close>; the code
  only ever compares with these two, so every further Alto II configuration is
  one constructor.
\<close>

datatype system_type = ALTO_I | ALTO_II_OTHER | ALTO_II_3KRAM

text \<open>
  \<^verbatim>\<open>struct microcode\<close>, the predecoded microinstruction, with the fields that
  \<^verbatim>\<open>simulator.c\<close> reads. The function codes are numbers that the code compares
  with the enumerators; \<open>rsel\<close> is read into a \<^verbatim>\<open>uint16_t\<close>, \<open>task\<close> into a
  \<^verbatim>\<open>uint8_t\<close>.
\<close>

record microcode =
  rsel :: "16 word"
  aluf :: nat
  bs :: nat
  f1 :: nat
  f2 :: nat
  load_t :: bool
  load_l :: bool
  load_t_from_alu :: bool
  use_constant :: bool
  bs_use_crom :: bool
  const_addr :: nat
  ram_task :: bool
  task :: "8 word"

record mcodes =
  TASK_EMULATOR :: "8 word"
  TASK_ETHERNET :: "8 word"
  TASK_DISK_SECTOR :: "8 word"
  TASK_DISK_WORD :: "8 word"
  BS_READ_R :: nat
  BS_LOAD_R :: nat
  BS_NONE :: nat
  BS_READ_MD :: nat
  BS_READ_MOUSE :: nat
  BS_READ_DISP :: nat
  BS_RAM_READ_S_LOCATION :: nat
  BS_RAM_LOAD_S_LOCATION :: nat
  BS_ETH_EIDFCT :: nat
  BS_DSK_READ_KSTAT :: nat
  BS_DSK_READ_KDATA :: nat
  ALU_BUS :: nat
  ALU_T :: nat
  ALU_BUS_OR_T :: nat
  ALU_BUS_AND_T :: nat
  ALU_BUS_AND_T_WB :: nat
  ALU_BUS_XOR_T :: nat
  ALU_BUS_PLUS_1 :: nat
  ALU_BUS_MINUS_1 :: nat
  ALU_BUS_PLUS_T :: nat
  ALU_BUS_MINUS_T :: nat
  ALU_BUS_MINUS_T_MINUS_1 :: nat
  ALU_BUS_PLUS_T_PLUS_1 :: nat
  ALU_BUS_PLUS_SKIP :: nat
  ALU_BUS_AND_NOT_T :: nat
  F1_NONE :: nat
  F1_CONSTANT :: nat
  F1_LLSH1 :: nat
  F1_LRSH1 :: nat
  F1_LLCY8 :: nat
  F1_LOAD_MAR :: nat
  F1_TASK :: nat
  F1_BLOCK :: nat
  F1_RAM_SWMODE :: nat
  F1_RAM_WRTRAM :: nat
  F1_RAM_RDRAM :: nat
  F1_RAM_LOAD_SRB :: nat
  F1_EMU_SWMODE :: nat
  F1_EMU_LOAD_RMR :: nat
  F1_EMU_LOAD_ESRB :: nat
  F1_EMU_RSNF :: nat
  F1_EMU_STARTF :: nat
  F1_SPECIFIC_THRESH :: nat
  F2_NONE :: nat
  F2_CONSTANT :: nat
  F2_BUSEQ0 :: nat
  F2_SHLT0 :: nat
  F2_SHEQ0 :: nat
  F2_BUS :: nat
  F2_ALUCY :: nat
  F2_STORE_MD :: nat
  F2_EMU_MAGIC :: nat
  F2_EMU_ACDEST :: nat
  F2_EMU_BUSODD :: nat
  F2_EMU_LOAD_DNS :: nat
  F2_EMU_LOAD_IR :: nat
  F2_EMU_IDISP :: nat
  F2_EMU_ACSOURCE :: nat
  MICROCODE_NEXT :: "32 word \<Rightarrow> 16 word"
  microcode_predecode :: "system_type \<Rightarrow> 16 word \<Rightarrow> 32 word \<Rightarrow> 8 word \<Rightarrow> microcode"

text \<open>\<^verbatim>\<open>struct mouse\<close>, as declared in \<^verbatim>\<open>simulator/mouse.h\<close>.\<close>

record mouse =
  buttons :: "16 word"
  bits :: "16 word"

text \<open>
  \<^verbatim>\<open>struct simulator\<close>. The single-letter registers \<^verbatim>\<open>r, s, t, l, m\<close> are
  \<open>reg_r\<close>, \<open>reg_s\<close>, \<open>reg_t\<close>, \<open>reg_l\<close>, \<open>reg_m\<close>; \<^verbatim>\<open>consts\<close> is \<open>const_rom\<close> and
  \<^verbatim>\<open>microcode\<close> is \<open>microcode_rom\<close>. Arrays are lists, so that every index is
  checked against the length. The \<^verbatim>\<open>int\<close> flags that only ever hold
  \<^verbatim>\<open>TRUE\<close>/\<^verbatim>\<open>FALSE\<close> are booleans. Of the peripheral controllers only the two
  parts that \<^verbatim>\<open>simulator_step\<close> reads are kept: the Ethernet address and the
  mouse.
\<close>

record simulator =
  reg_r :: "16 word list"
  reg_s :: "16 word list"
  const_rom :: "16 word list"
  microcode_rom :: "32 word list"
  task_mpc :: "16 word list"
  mem :: "16 word list"
  xm_banks :: "16 word list"
  sr_banks :: "8 word list"
  sys_type :: system_type
  error :: bool
  reg_t :: "16 word"
  reg_l :: "16 word"
  reg_m :: "16 word"
  mar :: "16 word"
  ir :: "16 word"
  mir :: "32 word"
  mpc :: "16 word"
  ctask :: "8 word"
  ntask :: "8 word"
  pending :: "16 word"
  aluC0 :: bool
  skip :: bool
  carry :: bool
  dns :: bool
  rmr :: "16 word"
  mem_cycle :: "16 word"
  mem_task :: "8 word"
  mem_low :: "16 word"
  mem_high :: "16 word"
  mem_extended :: bool
  mem_which :: "8 word"
  cycle :: "64 word"
  next_cycle :: "64 word"
  task_switch :: bool
  ether_address :: "16 word"
  mous :: mouse

subsection \<open>Constants of simulator.c\<close>

definition NUM_R_REGISTERS :: nat where
  "NUM_R_REGISTERS = 32"

definition NUM_S_REGISTERS :: nat where
  "NUM_S_REGISTERS = 8 * 32"

definition MPC_BANK_MASK :: "16 word" where
  "MPC_BANK_MASK = 0xC00"

definition MPC_ADDR_MASK :: "16 word" where
  "MPC_ADDR_MASK = 0x3FF"

definition NUM_BANKS :: nat where
  "NUM_BANKS = 4"

text \<open>
  Modelled from the spec: \<^verbatim>\<open>TASK_NUM_TASKS\<close> is defined in the missing
  \<^verbatim>\<open>microcode.h\<close>; the specification has sixteen tasks, numbered 0 to 15.
\<close>

definition TASK_NUM_TASKS :: nat where
  "TASK_NUM_TASKS = 16"

definition NUM_BANK_SLOTS :: nat where
  "NUM_BANK_SLOTS = TASK_NUM_TASKS"

text \<open>
  Modelled from the spec: \<^verbatim>\<open>MEMORY_SIZE\<close> is defined in a missing header; the
  specification has four main memory banks of 64K words each.
\<close>

definition MEMORY_SIZE :: nat where
  "MEMORY_SIZE = 65536"

definition XM_BANK_START :: "16 word" where
  "XM_BANK_START = 0xFFE0"

subsection \<open>Array accesses\<close>

text \<open>
  An access outside the array is undefined behaviour in C. The model returns
  \<open>None\<close> there, and \<open>None\<close> propagates to the caller.
\<close>

definition index :: "'a list \<Rightarrow> nat \<Rightarrow> 'a option" where
  "index xs i = (if i < length xs then Some (xs ! i) else None)"

definition store :: "'a list \<Rightarrow> nat \<Rightarrow> 'a \<Rightarrow> 'a list option" where
  "store xs i v = (if i < length xs then Some (xs[i := v]) else None)"

section \<open>The shifter\<close>

text \<open>
  \<^verbatim>\<open>do_shift\<close>. The C function receives the nova carry through a pointer and
  writes the new carry back through it; the model takes the value and returns
  the pair of the shifter output and the new carry. In the \<^verbatim>\<open>F1_LRSH1\<close> case
  the source tests the pointer itself, \<^verbatim>\<open>(nova_carry) ? 0x8000 : 0\<close>, where the
  \<^verbatim>\<open>F1_LLSH1\<close> case tests \<^verbatim>\<open>(*nova_carry)\<close>. The pointer is the address of a
  local variable of \<^verbatim>\<open>simulator_step\<close> and is never null, so the test is true.
\<close>

definition do_shift :: "mcodes \<Rightarrow> simulator \<Rightarrow> microcode \<Rightarrow> bool \<Rightarrow> 16 word \<times> bool" where
  "do_shift K sim mc nova_carry =
     (let has_magic = (f2 mc = F2_EMU_MAGIC K) in
      if f1 mc = F1_LLSH1 K then
        (let res = push_bit 1 (reg_l sim) in
         if has_magic then
           (res OR (if reg_t sim AND 0x8000 \<noteq> 0 then 1 else 0), nova_carry)
         else if dns sim then
           (res OR (if nova_carry then 1 else 0), reg_l sim AND 0x8000 \<noteq> 0)
         else (res, nova_carry))
      else if f1 mc = F1_LRSH1 K then
        (let res = drop_bit 1 (reg_l sim) in
         if has_magic then
           (res OR (if reg_t sim AND 1 \<noteq> 0 then 0x8000 else 0), nova_carry)
         else if dns sim then
           (res OR (if True then 0x8000 else 0), reg_l sim AND 1 \<noteq> 0)
         else (res, nova_carry))
      else if f1 mc = F1_LLCY8 K then
        (push_bit 8 (reg_l sim) OR drop_bit 8 (reg_l sim), nova_carry)
      else (reg_l sim, nova_carry))"

section \<open>Memory\<close>

text \<open>
  \<^verbatim>\<open>simulator_read\<close> and \<^verbatim>\<open>simulator_write\<close>. The range test compares the
  \<^verbatim>\<open>uint16_t\<close> address, promoted to \<^verbatim>\<open>int\<close>, with \<^verbatim>\<open>XM_BANK_START\<close> and with
  \<^verbatim>\<open>XM_BANK_START + NUM_BANK_SLOTS\<close>, both ends included.
\<close>

definition is_bank_address :: "16 word \<Rightarrow> bool" where
  "is_bank_address address \<longleftrightarrow>
     unat address \<ge> unat XM_BANK_START \<and> unat address \<le> unat XM_BANK_START + NUM_BANK_SLOTS"

definition bank_number :: "16 word \<Rightarrow> bool \<Rightarrow> nat" where
  "bank_number xb extended_memory =
     (if extended_memory then unat (xb AND 0x3) else unat (drop_bit 2 xb AND 0x3))"

definition simulator_read :: "simulator \<Rightarrow> 16 word \<Rightarrow> 8 word \<Rightarrow> bool \<Rightarrow> 16 word option" where
  "simulator_read sim address tsk extended_memory =
     (if is_bank_address address then
        do {
          b \<leftarrow> index (xm_banks sim) (unat address - unat XM_BANK_START);
          Some (0xFFF0 OR b)
        }
      else
        do {
          xb \<leftarrow> index (xm_banks sim) (unat tsk);
          index (mem sim) (bank_number xb extended_memory * MEMORY_SIZE + unat address)
        })"

definition simulator_write ::
  "simulator \<Rightarrow> 16 word \<Rightarrow> 16 word \<Rightarrow> 8 word \<Rightarrow> bool \<Rightarrow> simulator option" where
  "simulator_write sim address data tsk extended_memory =
     (if is_bank_address address then
        do {
          xm \<leftarrow> store (xm_banks sim) (unat address - unat XM_BANK_START) data;
          Some (sim\<lparr>xm_banks := xm\<rparr>)
        }
      else
        do {
          xb \<leftarrow> index (xm_banks sim) (unat tsk);
          me \<leftarrow> store (mem sim) (bank_number xb extended_memory * MEMORY_SIZE + unat address) data;
          Some (sim\<lparr>mem := me\<rparr>)
        })"

section \<open>Reset\<close>

text \<open>
  \<^verbatim>\<open>simulator_reset\<close>. The five \<^verbatim>\<open>memset\<close> calls clear the arrays that
  \<^verbatim>\<open>simulator_create\<close> allocated with exactly these sizes, and the loop writes
  \<^verbatim>\<open>task_mpc[task] = task\<close> for the sixteen tasks. The constant ROM, the microcode,
  the system type and the peripherals are not touched.
\<close>

definition simulator_reset :: "mcodes \<Rightarrow> simulator \<Rightarrow> simulator" where
  "simulator_reset K sim =
     sim\<lparr>reg_r := replicate NUM_R_REGISTERS 0,
         reg_s := replicate NUM_S_REGISTERS 0,
         mem := replicate (NUM_BANKS * MEMORY_SIZE) 0,
         xm_banks := replicate NUM_BANK_SLOTS 0,
         sr_banks := replicate NUM_BANK_SLOTS 0,
         task_mpc := map of_nat [0..<TASK_NUM_TASKS],
         error := False,
         reg_t := 0, reg_l := 0, reg_m := 0, mar := 0, ir := 0, mir := 0, mpc := 0,
         ctask := 0, ntask := 0,
         pending := push_bit (unat (TASK_EMULATOR K)) 1,
         aluC0 := False, skip := False, carry := False, dns := False,
         rmr := 0xFFFF,
         mem_cycle := 0,
         mem_task := TASK_EMULATOR K,
         mem_low := 0xFFFF, mem_high := 0xFFFF,
         mem_extended := False,
         mem_which := 0,
         cycle := 0, next_cycle := 0\<rparr>"

section \<open>The bus\<close>

definition get_modified_rsel :: "mcodes \<Rightarrow> simulator \<Rightarrow> microcode \<Rightarrow> 16 word" where
  "get_modified_rsel K sim mc =
     (if task mc = TASK_EMULATOR K then
        (if f2 mc = F2_EMU_ACSOURCE K then
           (rsel mc AND NOT 0x3) OR (NOT (drop_bit 13 (ir sim)) AND 0x3)
         else if f2 mc = F2_EMU_ACDEST K \<or> f2 mc = F2_EMU_LOAD_DNS K then
           (rsel mc AND NOT 0x3) OR (NOT (drop_bit 11 (ir sim)) AND 0x3)
         else rsel mc)
      else rsel mc)"

text \<open>
  Modelled from the spec: the body of \<^verbatim>\<open>mouse_poll_bits\<close> is not part of the
  sources. Its header says that it returns the mouse bits, and the specification
  has \<^verbatim>\<open>READ_MOUSE\<close> return \<^verbatim>\<open>mouse.bits & 0xFFF0\<close>.
\<close>

definition mouse_poll_bits :: "mouse \<Rightarrow> 16 word" where
  "mouse_poll_bits mo = bits mo"

text \<open>
  \<^verbatim>\<open>read_bus\<close> returns the value of the bus and may change the simulator
  (\<^verbatim>\<open>mem_which\<close>, \<^verbatim>\<open>error\<close>); the model returns both. \<open>read_bus_default\<close> is the
  \<^verbatim>\<open>default:\<close> case of its \<^verbatim>\<open>switch\<close>.
\<close>

definition read_bus_default ::
  "mcodes \<Rightarrow> simulator \<Rightarrow> microcode \<Rightarrow> 16 word \<Rightarrow> (16 word \<times> simulator) option" where
  "read_bus_default K sim mc output =
     (if ram_task mc then
        do {
          rb \<leftarrow> index (sr_banks sim) (unat (task mc));
          if bs mc = BS_RAM_READ_S_LOCATION K then
            (if rsel mc = 0 then Some (output AND reg_m sim, sim)
             else
               do {
                 v \<leftarrow> index (reg_s sim) (unat rb * NUM_R_REGISTERS + unat (rsel mc));
                 Some (output AND v, sim)
               })
          else if bs mc = BS_RAM_LOAD_S_LOCATION K then Some (output AND 0xBEEF, sim)
          else Some (0, sim\<lparr>error := True\<rparr>)
        }
      else if task mc = TASK_ETHERNET K \<and> bs mc = BS_ETH_EIDFCT K then
        Some (output AND 0xFFFF, sim)
      else if (task mc = TASK_DISK_SECTOR K \<or> task mc = TASK_DISK_WORD K)
              \<and> bs mc = BS_DSK_READ_KSTAT K then
        Some (output AND 0xFFFF, sim)
      else if (task mc = TASK_DISK_SECTOR K \<or> task mc = TASK_DISK_WORD K)
              \<and> bs mc = BS_DSK_READ_KDATA K then
        Some (output AND 0xFFFF, sim)
      else Some (0, sim\<lparr>error := True\<rparr>))"

definition read_bus ::
  "mcodes \<Rightarrow> simulator \<Rightarrow> microcode \<Rightarrow> 16 word \<Rightarrow> (16 word \<times> simulator) option" where
  "read_bus K sim mc modified_rsel =
     (if use_constant mc then
        do {
          c \<leftarrow> index (const_rom sim) (const_addr mc);
          Some (c, sim)
        }
      else
        do {
          output \<leftarrow> (if bs_use_crom mc then index (const_rom sim) (const_addr mc)
                     else Some 0xFFFF);
          if bs mc = BS_READ_R K then
            do {
              v \<leftarrow> index (reg_r sim) (unat modified_rsel);
              Some (output AND v, sim)
            }
          else if bs mc = BS_LOAD_R K then Some (output AND 0, sim)
          else if bs mc = BS_NONE K then
            (if task mc = TASK_EMULATOR K \<and> f1 mc = F1_EMU_RSNF K then
               Some (output AND (ether_address sim AND 0xFF00), sim)
             else Some (output, sim))
          else if bs mc = BS_READ_MD K then
            Some (if mem_which sim \<noteq> 0 then mem_high sim else mem_low sim,
                  sim\<lparr>mem_which := 1 XOR mem_which sim\<rparr>)
          else if bs mc = BS_READ_MOUSE K then
            Some (output AND (0xFFF0 AND mouse_poll_bits (mous sim)), sim)
          else if bs mc = BS_READ_DISP K then
            (let t0 = ir sim AND 0x00FF;
                 t1 = (if ir sim AND 0x300 \<noteq> 0 \<and> ir sim AND 0x80 \<noteq> 0 then t0 OR 0xFF00
                       else t0)
             in Some (output AND t1, sim))
          else read_bus_default K sim mc output
        })"

section \<open>The ALU\<close>

text \<open>
  \<open>alu_switch\<close> is the \<^verbatim>\<open>switch\<close> of \<^verbatim>\<open>compute_alu\<close> on 32-bit unsigned values;
  \<open>None\<close> is its \<^verbatim>\<open>default:\<close> case. \<open>compute_alu\<close> returns the ALU output, the
  carry and the simulator, whose error flag the default case sets.
\<close>

definition alu_switch :: "mcodes \<Rightarrow> simulator \<Rightarrow> microcode \<Rightarrow> 32 word \<Rightarrow> 32 word \<Rightarrow> 32 word option" where
  "alu_switch K sim mc a b =
     (if aluf mc = ALU_BUS K then Some a
      else if aluf mc = ALU_T K then Some b
      else if aluf mc = ALU_BUS_OR_T K then Some (a OR b)
      else if aluf mc = ALU_BUS_AND_T K \<or> aluf mc = ALU_BUS_AND_T_WB K then Some (a AND b)
      else if aluf mc = ALU_BUS_XOR_T K then Some (a XOR b)
      else if aluf mc = ALU_BUS_PLUS_1 K then Some (a + 1)
      else if aluf mc = ALU_BUS_MINUS_1 K then Some (a + 0xFFFF)
      else if aluf mc = ALU_BUS_PLUS_T K then Some (a + b)
      else if aluf mc = ALU_BUS_MINUS_T K then Some (a + (NOT b AND 0xFFFF) + 1)
      else if aluf mc = ALU_BUS_MINUS_T_MINUS_1 K then Some (a + (NOT b AND 0xFFFF))
      else if aluf mc = ALU_BUS_PLUS_T_PLUS_1 K then Some (a + b + 1)
      else if aluf mc = ALU_BUS_PLUS_SKIP K then Some (a + (if skip sim then 1 else 0))
      else if aluf mc = ALU_BUS_AND_NOT_T K then Some (a AND NOT b AND 0xFFFF)
      else None)"

definition compute_alu ::
  "mcodes \<Rightarrow> simulator \<Rightarrow> microcode \<Rightarrow> 16 word \<Rightarrow> 16 word \<times> bool \<times> simulator" where
  "compute_alu K sim mc bus =
     (case alu_switch K sim mc (ucast bus) (ucast (reg_t sim)) of
        None \<Rightarrow> (0xDEAD, False, sim\<lparr>error := True\<rparr>)
      | Some res \<Rightarrow> (ucast res, res AND 0x10000 \<noteq> 0, sim))"

section \<open>The F1 function\<close>

text \<open>
  The loop of the \<^verbatim>\<open>F1_TASK\<close> case, \<^verbatim>\<open>for (tmp = TASK_NUM_TASKS; tmp--;)\<close>, runs its
  body for \<^verbatim>\<open>tmp\<close> from 15 down to 0 and leaves at the first pending bit that is
  set. \<open>task_scan n p\<close> is the loop with \<^verbatim>\<open>tmp\<close> still to run through
  \<open>n - 1, \<dots>, 0\<close>; \<open>None\<close> means that the loop ended without a \<^verbatim>\<open>break\<close>.
\<close>

fun task_scan :: "nat \<Rightarrow> 16 word \<Rightarrow> nat option" where
  "task_scan 0 p = None"
| "task_scan (Suc n) p = (if p AND push_bit n 1 \<noteq> 0 then Some n else task_scan n p)"

text \<open>
  The \<^verbatim>\<open>F1_LOAD_MAR\<close> case. The second read uses the simulator as the first
  assignment to \<^verbatim>\<open>mem_low\<close> left it.
\<close>

definition do_f1_load_mar :: "mcodes \<Rightarrow> simulator \<Rightarrow> microcode \<Rightarrow> 16 word \<Rightarrow> simulator option" where
  "do_f1_load_mar K sim mc alu =
     (let sim1 = sim\<lparr>mar := alu,
                     mem_cycle := 0,
                     mem_task := task mc,
                     mem_low := 0xFFFF,
                     mem_high := 0xFFFF,
                     mem_extended := (if sys_type sim \<noteq> ALTO_I then f2 mc = F2_STORE_MD K
                                      else False),
                     mem_which := 0\<rparr>;
          addr = mar sim1
      in do {
           lo \<leftarrow> simulator_read sim1 addr (mem_task sim1) (mem_extended sim1);
           let sim2 = sim1\<lparr>mem_low := lo\<rparr>;
               addr2 = (if sys_type sim2 = ALTO_I then 1 OR addr else 1 XOR addr)
           in do {
                hi \<leftarrow> simulator_read sim2 addr2 (mem_task sim2) (mem_extended sim2);
                Some (sim2\<lparr>mem_high := hi\<rparr>)
              }
         })"

text \<open>
  The part of \<^verbatim>\<open>do_f1\<close> after its first \<^verbatim>\<open>switch\<close>: the \<^verbatim>\<open>switch\<close> for RAM tasks,
  which may return from \<^verbatim>\<open>do_f1\<close>, and the \<^verbatim>\<open>switch\<close> on the task.
\<close>

datatype 'a flow = Returned 'a | Continues 'a

definition load_srb :: "simulator \<Rightarrow> microcode \<Rightarrow> 16 word \<Rightarrow> simulator option" where
  "load_srb sim mc bus =
     (let tmp0 = (ucast (drop_bit 1 bus AND 0x7) :: 8 word);
          tmp = (if sys_type sim \<noteq> ALTO_II_3KRAM then 0 else tmp0)
      in do {
           sr \<leftarrow> store (sr_banks sim) (unat (task mc)) tmp;
           Some (sim\<lparr>sr_banks := sr\<rparr>)
         })"

definition do_f1_ram :: "mcodes \<Rightarrow> simulator \<Rightarrow> microcode \<Rightarrow> 16 word \<Rightarrow> simulator flow option" where
  "do_f1_ram K sim mc bus =
     (if f1 mc = F1_RAM_SWMODE K then
        (if task mc \<noteq> TASK_EMULATOR K then Some (Returned (sim\<lparr>error := True\<rparr>))
         else Some (Continues sim))
      else if f1 mc = F1_RAM_WRTRAM K then Some (Continues sim)
      else if f1 mc = F1_RAM_RDRAM K then Some (Continues sim)
      else if f1 mc = F1_RAM_LOAD_SRB K then
        (if task mc = TASK_EMULATOR K then Some (Continues sim)
         else map_option Continues (load_srb sim mc bus))
      else Some (Continues sim))"

definition do_f1_emulator :: "mcodes \<Rightarrow> simulator \<Rightarrow> microcode \<Rightarrow> 16 word \<Rightarrow> simulator option" where
  "do_f1_emulator K sim mc bus =
     (if f1 mc = F1_EMU_SWMODE K then Some sim
      else if f1 mc = F1_EMU_LOAD_RMR K then Some (sim\<lparr>rmr := bus\<rparr>)
      else if f1 mc = F1_EMU_LOAD_ESRB K then load_srb sim mc bus
      else if f1 mc = F1_EMU_RSNF K then Some sim
      else if f1 mc = F1_EMU_STARTF K then Some sim
      else if f1 mc \<ge> F1_SPECIFIC_THRESH K then Some (sim\<lparr>error := True\<rparr>)
      else Some sim)"

definition do_f1_specific :: "mcodes \<Rightarrow> simulator \<Rightarrow> microcode \<Rightarrow> 16 word \<Rightarrow> simulator option" where
  "do_f1_specific K sim mc bus =
     do {
       fl \<leftarrow> (if ram_task mc then do_f1_ram K sim mc bus else Some (Continues sim));
       case fl of
         Returned sim1 \<Rightarrow> Some sim1
       | Continues sim1 \<Rightarrow>
           (if task mc = TASK_EMULATOR K then do_f1_emulator K sim1 mc bus else Some sim1)
     }"

text \<open>
  \<^verbatim>\<open>do_f1\<close>. In the \<^verbatim>\<open>F1_BLOCK\<close> case \<^verbatim>\<open>1 << mc->task\<close> is a shift of an \<^verbatim>\<open>int\<close>, which
  is undefined for a shift count above 30; the mask is then cut to the sixteen
  bits of \<^verbatim>\<open>pending\<close>.
\<close>

definition do_f1 ::
  "mcodes \<Rightarrow> simulator \<Rightarrow> microcode \<Rightarrow> 16 word \<Rightarrow> 16 word \<Rightarrow> 16 word \<Rightarrow> simulator option" where
  "do_f1 K sim mc bus alu shifter_output =
     (if f1 mc = F1_NONE K then do_f1_specific K sim mc bus
      else if f1 mc = F1_CONSTANT K \<or> f1 mc = F1_LLSH1 K
              \<or> f1 mc = F1_LRSH1 K \<or> f1 mc = F1_LLCY8 K then Some sim
      else if f1 mc = F1_LOAD_MAR K then do_f1_load_mar K sim mc alu
      else if f1 mc = F1_TASK K then
        Some (case task_scan TASK_NUM_TASKS (pending sim) of
                Some tmp \<Rightarrow> sim\<lparr>ntask := of_nat tmp\<rparr>
              | None \<Rightarrow> sim)
      else if f1 mc = F1_BLOCK K then
        (if task mc = TASK_EMULATOR K then Some (sim\<lparr>error := True\<rparr>)
         else if unat (task mc) \<le> 30 then
           Some (sim\<lparr>pending := pending sim AND NOT (push_bit (unat (task mc)) 1)\<rparr>)
         else None)
      else do_f1_specific K sim mc bus)"

section \<open>The F2 function\<close>

definition do_f2_store_md :: "mcodes \<Rightarrow> simulator \<Rightarrow> microcode \<Rightarrow> 16 word \<Rightarrow> simulator option" where
  "do_f2_store_md K sim mc bus =
     (if f1 mc \<noteq> F1_LOAD_MAR K \<or> sys_type sim = ALTO_I then
        (let addr = (if mem_which sim \<noteq> 0 then
                       (if sys_type sim = ALTO_I then 1 OR mar sim else 1 XOR mar sim)
                     else mar sim)
         in do {
              sim1 \<leftarrow> simulator_write sim addr bus (mem_task sim) (mem_extended sim);
              Some (sim1\<lparr>mem_which := 1 XOR mem_which sim1\<rparr>)
            })
      else Some sim)"

definition do_f2_emulator :: "mcodes \<Rightarrow> simulator \<Rightarrow> microcode \<Rightarrow> 16 word \<Rightarrow> 16 word \<times> simulator" where
  "do_f2_emulator K sim mc bus =
     (if f2 mc = F2_EMU_MAGIC K \<or> f2 mc = F2_EMU_ACDEST K then (0, sim)
      else if f2 mc = F2_EMU_BUSODD K then (bus AND 1, sim)
      else if f2 mc = F2_EMU_LOAD_DNS K then (0, sim)
      else if f2 mc = F2_EMU_LOAD_IR K then
        (let next_extra = drop_bit 8 bus AND 0x7
         in (if bus AND 0x8000 \<noteq> 0 then next_extra OR 0x8 else next_extra,
             sim\<lparr>ir := bus, skip := False\<rparr>))
      else if f2 mc = F2_EMU_IDISP K then (0, sim)
      else if f2 mc = F2_EMU_ACSOURCE K then (0, sim)
      else (0, sim))"

definition do_f2 ::
  "mcodes \<Rightarrow> simulator \<Rightarrow> microcode \<Rightarrow> 16 word \<Rightarrow> 16 word \<Rightarrow> 16 word
     \<Rightarrow> (16 word \<times> simulator) option" where
  "do_f2 K sim mc bus alu shifter_output =
     (if f2 mc = F2_NONE K then Some (0, sim)
      else if f2 mc = F2_CONSTANT K then Some (0, sim)
      else if f2 mc = F2_BUSEQ0 K then Some (if bus = 0 then 1 else 0, sim)
      else if f2 mc = F2_SHLT0 K then Some (if shifter_output AND 0x8000 \<noteq> 0 then 1 else 0, sim)
      else if f2 mc = F2_SHEQ0 K then Some (if shifter_output = 0 then 1 else 0, sim)
      else if f2 mc = F2_BUS K then Some (bus AND MPC_ADDR_MASK, sim)
      else if f2 mc = F2_ALUCY K then Some (if aluC0 sim then 1 else 0, sim)
      else if f2 mc = F2_STORE_MD K then
        map_option (Pair 0) (do_f2_store_md K sim mc bus)
      else if task mc = TASK_EMULATOR K then Some (do_f2_emulator K sim mc bus)
      else Some (0, sim))"

section \<open>Write-back and program counters\<close>

definition wb_registers ::
  "mcodes \<Rightarrow> simulator \<Rightarrow> microcode \<Rightarrow> 16 word \<Rightarrow> 16 word \<Rightarrow> 16 word \<Rightarrow> 16 word \<Rightarrow> bool
     \<Rightarrow> simulator option" where
  "wb_registers K sim mc modified_rsel bus alu shifter_output alu_carry =
     do {
       sim1 \<leftarrow>
         (if \<not> use_constant mc then
            (if bs mc = BS_LOAD_R K then
               do {
                 rr \<leftarrow> store (reg_r sim) (unat modified_rsel) shifter_output;
                 Some (sim\<lparr>reg_r := rr\<rparr>)
               }
             else if ram_task mc \<and> bs mc = BS_RAM_LOAD_S_LOCATION K then
               do {
                 rb \<leftarrow> index (sr_banks sim) (unat (task mc));
                 ss \<leftarrow> store (reg_s sim) (unat rb * NUM_R_REGISTERS + unat (rsel mc)) (reg_m sim);
                 Some (sim\<lparr>reg_s := ss\<rparr>)
               }
             else Some sim)
          else Some sim);
       let sim2 = (if load_l mc then
                     (if task mc = TASK_EMULATOR K then
                        sim1\<lparr>reg_l := alu, reg_m := alu, aluC0 := alu_carry\<rparr>
                      else sim1\<lparr>reg_l := alu, aluC0 := alu_carry\<rparr>)
                   else sim1);
           sim3 = (if load_t mc then
                     (if load_t_from_alu mc then sim2\<lparr>reg_t := alu\<rparr> else sim2\<lparr>reg_t := bus\<rparr>)
                   else sim2)
       in Some sim3
     }"

definition update_program_counters :: "mcodes \<Rightarrow> simulator \<Rightarrow> 16 word \<Rightarrow> simulator option" where
  "update_program_counters K sim next_extra =
     do {
       mpc0 \<leftarrow> index (task_mpc sim) (unat (ctask sim));
       mcode \<leftarrow> index (microcode_rom sim) (unat mpc0);
       tm \<leftarrow> store (task_mpc sim) (unat (ctask sim))
               ((mpc0 AND MPC_BANK_MASK) OR MICROCODE_NEXT K mcode OR next_extra);
       Some (sim\<lparr>task_mpc := tm,
                 mir := mcode,
                 mpc := mpc0,
                 ctask := ntask sim,
                 cycle := cycle sim + 1,
                 mem_cycle := (if mem_cycle sim \<noteq> 0xFFFF then
                                 (if mem_cycle sim \<ge> 10 then 0xFFFF else mem_cycle sim + 1)
                               else mem_cycle sim)\<rparr>)
     }"

section \<open>One step\<close>

text \<open>
  \<^verbatim>\<open>simulator_step\<close>. The nova carry that \<^verbatim>\<open>do_shift\<close> computes lives in a local
  variable of the C function and is not stored back.
\<close>

definition simulator_step :: "mcodes \<Rightarrow> simulator \<Rightarrow> simulator option" where
  "simulator_step K sim =
     (if error sim then Some sim
      else
        (let mc = microcode_predecode K (sys_type sim) (mpc sim) (mir sim) (ctask sim);
             modified_rsel = get_modified_rsel K sim mc
         in do {
              (bus, sim1) \<leftarrow> read_bus K sim mc modified_rsel;
              if error sim1 then Some sim1
              else
                (let (alu, alu_carry, sim2) = compute_alu K sim1 mc bus in
                 if error sim2 then Some sim2
                 else
                   (let (shifter_output, nova_carry) = do_shift K sim2 mc (carry sim2) in
                    do {
                      sim3 \<leftarrow> do_f1 K sim2 mc bus alu shifter_output;
                      if error sim3 then Some sim3
                      else
                        do {
                          (next_extra, sim4) \<leftarrow> do_f2 K sim3 mc bus alu shifter_output;
                          if error sim4 then Some sim4
                          else
                            do {
                              sim5 \<leftarrow> wb_registers K sim4 mc modified_rsel bus alu
                                        shifter_output alu_carry;
                              update_program_counters K sim5 next_extra
                            }
                        }
                    }))
            }))"

section \<open>The breakpoints of the debugger (psim.c)\<close>

text \<open>
  \<^verbatim>\<open>struct breakpoint\<close>. Its fields \<^verbatim>\<open>task\<close>, \<^verbatim>\<open>ntask\<close> and \<^verbatim>\<open>mpc\<close> are \<open>bp_task\<close>,
  \<open>bp_ntask\<close> and \<open>bp_mpc\<close> here, since the simulator and the microinstruction
  have fields of the same names.
\<close>

record breakpoint =
  available :: bool
  enable :: bool
  bp_task :: "8 word"
  bp_ntask :: "8 word"
  bp_mpc :: "16 word"
  on_task_switch :: bool
  mir_fmt :: "32 word"
  mir_mask :: "32 word"

text \<open>
  The first loop of \<^verbatim>\<open>psim_simulate\<close>: the effective number of breakpoints is one
  more than the last slot that is in use and enabled. The table \<^verbatim>\<open>ps->bps\<close> is
  the list, \<^verbatim>\<open>ps->max_breakpoints\<close> its length.
\<close>

definition effective_breakpoints :: "breakpoint list \<Rightarrow> nat" where
  "effective_breakpoints bps =
     foldl (\<lambda>max_breakpoints num.
              if \<not> available (bps ! num) \<and> enable (bps ! num) then num + 1
              else max_breakpoints)
           0 [0..<length bps]"

text \<open>
  The body of the inner loop for one enabled breakpoint: \<^verbatim>\<open>hit1\<close> starts as
  \<^verbatim>\<open>TRUE\<close> and each test in turn may set it to \<^verbatim>\<open>FALSE\<close>.
\<close>

definition breakpoint_hit1 :: "simulator \<Rightarrow> breakpoint \<Rightarrow> bool" where
  "breakpoint_hit1 sim bp =
     (let hit1 = True;
          hit1 = (if bp_task bp \<noteq> 0xFF then (if bp_task bp \<noteq> ctask sim then False else hit1)
                  else hit1);
          hit1 = (if bp_ntask bp \<noteq> 0xFF then (if bp_ntask bp \<noteq> ntask sim then False else hit1)
                  else hit1);
          hit1 = (if bp_mpc bp \<noteq> 0xFFFF then (if bp_mpc bp \<noteq> mpc sim then False else hit1)
                  else hit1);
          hit1 = (if on_task_switch bp then (if \<not> task_switch sim then False else hit1)
                  else hit1);
          hit1 = (if mir_mask bp \<noteq> 0 then
                    (if mir sim AND mir_mask bp \<noteq> mir_fmt bp then False else hit1)
                  else hit1)
      in hit1)"

text \<open>
  The inner loop, \<^verbatim>\<open>for (num = 0; num < max_breakpoints; num++)\<close>, over the slots
  that are left, \<open>num\<close> being the number of the first of them. The result is the
  number of the breakpoint at which the loop breaks with \<^verbatim>\<open>hit = TRUE\<close>, if any.
\<close>

fun scan_breakpoints :: "simulator \<Rightarrow> breakpoint list \<Rightarrow> nat \<Rightarrow> nat option" where
  "scan_breakpoints sim [] num = None"
| "scan_breakpoints sim (bp # rest) num =
     (if \<not> enable bp then scan_breakpoints sim rest (Suc num)
      else if breakpoint_hit1 sim bp then Some num
      else scan_breakpoints sim rest (Suc num))"

definition check_breakpoints :: "simulator \<Rightarrow> breakpoint list \<Rightarrow> nat option" where
  "check_breakpoints sim bps = scan_breakpoints sim (take (effective_breakpoints bps) bps) 0"

text \<open>
  The main loop of \<^verbatim>\<open>psim_simulate\<close>. The GUI is outside the model: \<open>gui_running\<close>
  and \<open>gui_update\<close> give the answers of the two GUI calls as functions of the
  number of steps done so far. The loop may run forever, so the model is a
  partial function. The step count is a C \<^verbatim>\<open>int\<close>, of 32 bits on the platforms the
  program is built for: \<^verbatim>\<open>step++\<close> at \<^verbatim>\<open>INT_MAX\<close> overflows, which C leaves undefined.
  An iteration whose behaviour is undefined, in \<^verbatim>\<open>simulator_step\<close> or in \<^verbatim>\<open>step++\<close>,
  ends the loop with \<open>Undefined_step\<close>. The outcome \<open>Finished ret sim step hit\<close>
  carries the value returned, the simulator, the step count and the breakpoint
  that was hit.
\<close>

definition INT_MAX :: int where
  "INT_MAX = 2147483647"

datatype outcome = Finished bool simulator int "nat option" | Undefined_step

partial_function (option) psim_simulate_loop ::
  "(int \<Rightarrow> bool) \<Rightarrow> (int \<Rightarrow> bool) \<Rightarrow> mcodes \<Rightarrow> breakpoint list \<Rightarrow> int \<Rightarrow> int \<Rightarrow> simulator
     \<Rightarrow> outcome option" where
  "psim_simulate_loop gui_running gui_update K bps max_steps step sim =
     (if \<not> gui_running step then Some (Finished True sim step None)
      else if max_steps \<ge> 0 \<and> step = max_steps then Some (Finished True sim step None)
      else
        (case simulator_step K sim of
           None \<Rightarrow> Some Undefined_step
         | Some sim1 \<Rightarrow>
             if step = INT_MAX then Some Undefined_step
             else
               (let step1 = step + 1 in
                if step1 mod 100000 = 0 \<and> \<not> gui_update step1 then
                  Some (Finished False sim1 step1 None)
                else
                  (case check_breakpoints sim1 bps of
                     Some num \<Rightarrow> Some (Finished True sim1 step1 (Some num))
                   | None \<Rightarrow>
                       psim_simulate_loop gui_running gui_update K bps max_steps step1 sim1))))"

definition psim_simulate ::
  "(int \<Rightarrow> bool) \<Rightarrow> (int \<Rightarrow> bool) \<Rightarrow> mcodes \<Rightarrow> breakpoint list \<Rightarrow> int \<Rightarrow> simulator
     \<Rightarrow> outcome option" where
  "psim_simulate gui_running gui_update K bps max_steps sim =
     psim_simulate_loop gui_running gui_update K bps max_steps 0 sim"

section \<open>The UDP transport\<close>

text \<open>
  The part of \<^verbatim>\<open>struct udp_transport\<close> that \<^verbatim>\<open>trp_clear_tx\<close>, \<^verbatim>\<open>trp_append_tx\<close>,
  \<^verbatim>\<open>trp_send\<close>, \<^verbatim>\<open>trp_clear_rx\<close> and \<^verbatim>\<open>trp_get_rx_data\<close> use: the two byte buffers
  and the positions, which are \<^verbatim>\<open>size_t\<close> values.
\<close>

record udp_transport =
  tx_buf :: "8 word list"
  rx_buf :: "8 word list"
  tx_pos :: nat
  rx_pos :: nat
  rx_len :: nat

definition UDP_PACKET_SIZE :: nat where
  "UDP_PACKET_SIZE = 1024"

definition trp_clear_tx :: "udp_transport \<Rightarrow> udp_transport" where
  "trp_clear_tx utrp = utrp\<lparr>tx_pos := 0\<rparr>"

text \<open>\<^verbatim>\<open>trp_append_tx\<close> returns \<^verbatim>\<open>TRUE\<close> or \<^verbatim>\<open>FALSE\<close> and the transport.\<close>

definition trp_append_tx :: "udp_transport \<Rightarrow> 16 word \<Rightarrow> (bool \<times> udp_transport) option" where
  "trp_append_tx utrp data =
     do {
       utrp1 \<leftarrow>
         (if tx_pos utrp = 0 then
            do {
              b0 \<leftarrow> store (tx_buf utrp) 0 0;
              b1 \<leftarrow> store b0 1 0;
              Some (utrp\<lparr>tx_pos := 2, tx_buf := b1\<rparr>)
            }
          else Some utrp);
       if tx_pos utrp1 \<ge> UDP_PACKET_SIZE then Some (False, utrp1)
       else
         do {
           b0 \<leftarrow> store (tx_buf utrp1) (tx_pos utrp1) (ucast (drop_bit 8 data));
           b1 \<leftarrow> store b0 (tx_pos utrp1 + 1) (ucast data);
           Some (True, utrp1\<lparr>tx_buf := b1, tx_pos := tx_pos utrp1 + 2\<rparr>)
         }
     }"

text \<open>
  \<^verbatim>\<open>trp_send\<close>. The socket is outside the model: \<open>sendto_ok\<close> says whether
  \<^verbatim>\<open>sendto\<close> succeeds, and the result carries the datagram handed to it, the
  first \<^verbatim>\<open>tx_pos\<close> bytes of the TX buffer. The length written in front is
  \<^verbatim>\<open>(uint16_t) ((tx_pos >> 1) - 1)\<close>, computed on \<^verbatim>\<open>size_t\<close> and cut to sixteen bits.
\<close>

definition trp_send :: "bool \<Rightarrow> udp_transport \<Rightarrow> (bool \<times> 8 word list \<times> udp_transport) option" where
  "trp_send sendto_ok utrp =
     (let data = (of_nat (tx_pos utrp div 2) - 1 :: 16 word)
      in do {
           b0 \<leftarrow> store (tx_buf utrp) 0 (ucast (drop_bit 8 data));
           b1 \<leftarrow> store b0 1 (ucast data);
           let utrp1 = utrp\<lparr>tx_buf := b1\<rparr>
           in if tx_pos utrp1 \<le> length (tx_buf utrp1) then
                (let datagram = take (tx_pos utrp1) (tx_buf utrp1)
                 in if sendto_ok then Some (True, datagram, utrp1\<lparr>tx_pos := 0\<rparr>)
                    else Some (False, datagram, utrp1))
              else None
         })"

definition trp_clear_rx :: "udp_transport \<Rightarrow> udp_transport" where
  "trp_clear_rx utrp = utrp\<lparr>rx_pos := 0, rx_len := 0\<rparr>"

definition trp_get_rx_data :: "udp_transport \<Rightarrow> (16 word \<times> udp_transport) option" where
  "trp_get_rx_data utrp =
     (if rx_pos utrp \<ge> rx_len utrp then Some (0, utrp)
      else
        (let utrp1 = (if rx_pos utrp = 0 then utrp\<lparr>rx_pos := 2\<rparr> else utrp)
         in do {
              hi \<leftarrow> index (rx_buf utrp1) (rx_pos utrp1);
              lo \<leftarrow> index (rx_buf utrp1) (rx_pos utrp1 + 1);
              Some (push_bit 8 (ucast hi) OR ucast lo, utrp1\<lparr>rx_pos := rx_pos utrp1 + 2\<rparr>)
            }))"

text \<open>
  The callers of the transport: \<open>append_words\<close> appends the words of a list one
  after the other and stops at the first \<^verbatim>\<open>FALSE\<close>; \<open>get_rx_words n\<close> calls
  \<^verbatim>\<open>get_rx_data\<close> \<open>n\<close> times and collects what it returns.
\<close>

fun append_words :: "udp_transport \<Rightarrow> 16 word list \<Rightarrow> (bool \<times> udp_transport) option" where
  "append_words utrp [] = Some (True, utrp)"
| "append_words utrp (w # ws) =
     (case trp_append_tx utrp w of
        None \<Rightarrow> None
      | Some (ok, utrp1) \<Rightarrow> if ok then append_words utrp1 ws else Some (False, utrp1))"

fun get_rx_words :: "nat \<Rightarrow> udp_transport \<Rightarrow> (16 word list \<times> udp_transport) option" where
  "get_rx_words 0 utrp = Some ([], utrp)"
| "get_rx_words (Suc n) utrp =
     (case trp_get_rx_data utrp of
        None \<Rightarrow> None
      | Some (w, utrp1) \<Rightarrow>
          (case get_rx_words n utrp1 of
             None \<Rightarrow> None
           | Some (ws, utrp2) \<Rightarrow> Some (w # ws, utrp2)))"

text \<open>
  The frame of the wire format as the specification describes it: the word count
  in two bytes, most significant first, then every word in two bytes, most
  significant first.
\<close>

definition word_bytes :: "16 word \<Rightarrow> 8 word list" where
  "word_bytes w = [ucast (drop_bit 8 w), ucast w]"

definition spec_frame :: "16 word list \<Rightarrow> 8 word list" where
  "spec_frame ws = word_bytes (of_nat (length ws)) @ concat (map word_bytes ws)"

section \<open>Instances for the examples\<close>

text \<open>
  The theorems below hold for every assignment of the codes that keeps the
  \<^verbatim>\<open>case\<close> labels of each \<^verbatim>\<open>switch\<close> apart. \<open>alto_codes\<close> is one assignment, the
  encoding of the function fields in the Alto hardware manual, with a decoder
  \<open>example_predecode\<close> that cuts the fields out of the 32-bit microinstruction.
  They serve to run the model on concrete inputs.
\<close>

definition example_predecode :: "system_type \<Rightarrow> 16 word \<Rightarrow> 32 word \<Rightarrow> 8 word \<Rightarrow> microcode" where
  "example_predecode sys mpc0 mir0 ctask0 =
     \<lparr>rsel = ucast (drop_bit 27 mir0 AND 0x1F),
      aluf = unat (drop_bit 23 mir0 AND 0xF),
      bs = unat (drop_bit 20 mir0 AND 0x7),
      f1 = unat (drop_bit 16 mir0 AND 0xF),
      f2 = unat (drop_bit 12 mir0 AND 0xF),
      load_t = (drop_bit 11 mir0 AND 1 \<noteq> 0),
      load_l = (drop_bit 10 mir0 AND 1 \<noteq> 0),
      load_t_from_alu = False,
      use_constant = (drop_bit 16 mir0 AND 0xF = 7 \<or> drop_bit 12 mir0 AND 0xF = 7),
      bs_use_crom = False,
      const_addr = unat (drop_bit 20 mir0 AND 0xFF),
      ram_task = (sys = ALTO_II_3KRAM),
      task = ctask0\<rparr>"

definition alto_codes :: mcodes where
  "alto_codes =
     \<lparr>TASK_EMULATOR = 0, TASK_ETHERNET = 7, TASK_DISK_SECTOR = 4, TASK_DISK_WORD = 14,
      BS_READ_R = 0, BS_LOAD_R = 1, BS_NONE = 2, BS_READ_MD = 5, BS_READ_MOUSE = 6,
      BS_READ_DISP = 7, BS_RAM_READ_S_LOCATION = 3, BS_RAM_LOAD_S_LOCATION = 4,
      BS_ETH_EIDFCT = 4, BS_DSK_READ_KSTAT = 3, BS_DSK_READ_KDATA = 4,
      ALU_BUS = 0, ALU_T = 1, ALU_BUS_OR_T = 2, ALU_BUS_AND_T = 3, ALU_BUS_AND_T_WB = 12,
      ALU_BUS_XOR_T = 4, ALU_BUS_PLUS_1 = 5, ALU_BUS_MINUS_1 = 6, ALU_BUS_PLUS_T = 7,
      ALU_BUS_MINUS_T = 8, ALU_BUS_MINUS_T_MINUS_1 = 9, ALU_BUS_PLUS_T_PLUS_1 = 10,
      ALU_BUS_PLUS_SKIP = 11, ALU_BUS_AND_NOT_T = 13,
      F1_NONE = 0, F1_CONSTANT = 7, F1_LLSH1 = 4, F1_LRSH1 = 5, F1_LLCY8 = 6,
      F1_LOAD_MAR = 1, F1_TASK = 2, F1_BLOCK = 3,
      F1_RAM_SWMODE = 8, F1_RAM_WRTRAM = 9, F1_RAM_RDRAM = 10, F1_RAM_LOAD_SRB = 11,
      F1_EMU_SWMODE = 8, F1_EMU_LOAD_RMR = 11, F1_EMU_LOAD_ESRB = 13, F1_EMU_RSNF = 14,
      F1_EMU_STARTF = 15, F1_SPECIFIC_THRESH = 8,
      F2_NONE = 0, F2_CONSTANT = 7, F2_BUSEQ0 = 1, F2_SHLT0 = 2, F2_SHEQ0 = 3, F2_BUS = 4,
      F2_ALUCY = 5, F2_STORE_MD = 6,
      F2_EMU_MAGIC = 9, F2_EMU_ACDEST = 11, F2_EMU_BUSODD = 8, F2_EMU_LOAD_DNS = 10,
      F2_EMU_LOAD_IR = 12, F2_EMU_IDISP = 13, F2_EMU_ACSOURCE = 14,
      MICROCODE_NEXT = (\<lambda>mcode. ucast (mcode AND 0x3FF)),
      microcode_predecode = example_predecode\<rparr>"

text \<open>
  A simulator as \<^verbatim>\<open>simulator_create\<close> allocates it, with a constant ROM of 256
  words and a microcode store of four banks of 1024 words, all zero, and its
  state after \<^verbatim>\<open>simulator_reset\<close>.
\<close>

definition blank_simulator :: simulator where
  "blank_simulator =
     \<lparr>reg_r = replicate 32 0, reg_s = replicate 256 0, const_rom = replicate 256 0,
      microcode_rom = replicate 4096 0, task_mpc = replicate 16 0,
      mem = replicate 262144 0, xm_banks = replicate 16 0, sr_banks = replicate 16 0,
      sys_type = ALTO_II_3KRAM, error = False,
      reg_t = 0, reg_l = 0, reg_m = 0, mar = 0, ir = 0, mir = 0, mpc = 0,
      ctask = 0, ntask = 0, pending = 0,
      aluC0 = False, skip = False, carry = False, dns = False,
      rmr = 0, mem_cycle = 0, mem_task = 0, mem_low = 0, mem_high = 0,
      mem_extended = False, mem_which = 0, cycle = 0, next_cycle = 0,
      task_switch = False, ether_address = 0,
      mous = \<lparr>buttons = 0, bits = 0\<rparr>\<rparr>"

definition reset_simulator :: simulator where
  "reset_simulator = simulator_reset alto_codes blank_simulator"

definition example_mc :: microcode where
  "example_mc =
     \<lparr>rsel = 0, aluf = 0, bs = 2, f1 = 0, f2 = 0, load_t = False, load_l = False,
      load_t_from_alu = False, use_constant = False, bs_use_crom = False,
      const_addr = 0, ram_task = False, task = 0\<rparr>"

definition primed_simulator :: simulator where
  "primed_simulator =
     reset_simulator\<lparr>mem := (mem reset_simulator)[0x40 := 0xAAAA, 0x41 := 0x5555]\<rparr>"

text \<open>
  A transport with cleared buffers of \<^verbatim>\<open>UDP_PACKET_SIZE\<close> bytes, and a receiver that
  holds the frame of the two words 0x1234 and 0x5678 in its RX buffer, with the
  length that \<^verbatim>\<open>trp_receive\<close> sets for it (two more bytes than the frame).
\<close>

definition example_transport :: udp_transport where
  "example_transport =
     \<lparr>tx_buf = replicate 1024 0, rx_buf = replicate 1024 0, tx_pos = 0, rx_pos = 0,
      rx_len = 0\<rparr>"

definition example_receiver :: udp_transport where
  "example_receiver =
     example_transport\<lparr>rx_buf := [0, 2, 0x12, 0x34, 0x56, 0x78] @ replicate 1018 0,
                        rx_len := 8\<rparr>"




section \<open>The labels of the switch statements\<close>

text \<open>
  The \<^verbatim>\<open>case\<close> labels of one \<^verbatim>\<open>switch\<close> statement are pairwise different in every C
  program that compiles. The model writes each \<^verbatim>\<open>switch\<close> as a chain of tests, so
  the theorems that select a case assume that its label differs from the labels
  tested before it. These predicates state it for the \<^verbatim>\<open>switch\<close> of \<^verbatim>\<open>do_shift\<close>,
  the first \<^verbatim>\<open>switch\<close> of \<^verbatim>\<open>do_f1\<close> and the \<^verbatim>\<open>switch\<close> of \<^verbatim>\<open>read_bus\<close>.
\<close>

definition shift_labels :: "mcodes \<Rightarrow> bool" where
  "shift_labels K \<longleftrightarrow> distinct [F1_LLSH1 K, F1_LRSH1 K, F1_LLCY8 K]"

definition f1_labels :: "mcodes \<Rightarrow> bool" where
  "f1_labels K \<longleftrightarrow>
     distinct [F1_NONE K, F1_CONSTANT K, F1_LLSH1 K, F1_LRSH1 K, F1_LLCY8 K,
               F1_LOAD_MAR K, F1_TASK K, F1_BLOCK K]"

definition bs_labels :: "mcodes \<Rightarrow> bool" where
  "bs_labels K \<longleftrightarrow>
     distinct [BS_READ_R K, BS_LOAD_R K, BS_NONE K, BS_READ_MD K, BS_READ_MOUSE K,
               BS_READ_DISP K]"

section \<open>Runs and well-formed states\<close>

text \<open>\<open>run_steps K n\<close> calls \<^verbatim>\<open>simulator_step\<close> \<open>n\<close> times, as long as the steps are defined.\<close>

fun run_steps :: "mcodes \<Rightarrow> nat \<Rightarrow> simulator \<Rightarrow> simulator option" where
  "run_steps K 0 sim = Some sim"
| "run_steps K (Suc n) sim =
     (case simulator_step K sim of None \<Rightarrow> None | Some sim1 \<Rightarrow> run_steps K n sim1)"

text \<open>
  The arrays of the register files and of the two bank tables have the lengths
  with which \<^verbatim>\<open>simulator_create\<close> allocates them, and every S-register bank
  number is one of the eight banks, as \<^verbatim>\<open>do_f1\<close> writes them (three bits).
\<close>

definition arrays_allocated :: "simulator \<Rightarrow> bool" where
  "arrays_allocated sim \<longleftrightarrow>
     length (reg_r sim) = NUM_R_REGISTERS \<and> length (reg_s sim) = NUM_S_REGISTERS
     \<and> length (xm_banks sim) = NUM_BANK_SLOTS \<and> length (sr_banks sim) = NUM_BANK_SLOTS
     \<and> list_all (\<lambda>rb. unat rb < 8) (sr_banks sim)"

text \<open>
  A predecoded microinstruction whose register selector, constant address and
  task stay inside the R file, the constant ROM and the task tables.
\<close>

definition mc_in_range :: "simulator \<Rightarrow> microcode \<Rightarrow> bool" where
  "mc_in_range sim mc \<longleftrightarrow>
     unat (rsel mc) < NUM_R_REGISTERS \<and> const_addr mc < length (const_rom sim)
     \<and> unat (task mc) < TASK_NUM_TASKS"

section \<open>Facts about the instances\<close>

lemma alto_labels: "f1_labels alto_codes" "shift_labels alto_codes" "bs_labels alto_codes"
  by (simp_all add: f1_labels_def shift_labels_def bs_labels_def alto_codes_def)

lemma reset_simulator_flags:
  "dns reset_simulator = False" "carry reset_simulator = False" "error reset_simulator = False"
  "reg_l reset_simulator = 0" "sys_type reset_simulator = ALTO_II_3KRAM"
  by (simp_all add: reset_simulator_def simulator_reset_def blank_simulator_def)

section \<open>The shifter: claims C2 and C3\<close>

lemma push_drop_mask: "push_bit n (drop_bit n x) = (x::16 word) AND NOT (mask n)"
  by (rule bit_word_eqI) (auto simp add: bit_simps)

lemma lsh_rsh_word: "push_bit 1 (drop_bit 1 x) = (x::16 word) AND 0xFFFE"
proof -
  have e: "(0xFFFE :: 16 word) = NOT (mask 1)" by simp
  show ?thesis unfolding e by (rule push_drop_mask)
qed

lemma swap_swap_gen: "n + n = 16 \<Longrightarrow>
  (push_bit n (push_bit n x OR drop_bit n x) OR drop_bit n (push_bit n x OR drop_bit n x)) = (x::16 word)"
  by (rule bit_word_eqI) (auto simp add: bit_simps)

lemma swap_swap_word:
  "push_bit 8 (push_bit 8 x OR drop_bit 8 x) OR drop_bit 8 (push_bit 8 x OR drop_bit 8 x) = (x::16 word)"
  using swap_swap_gen [of 8 x] by simp

lemma do_shift_llcy8:
  "shift_labels K \<Longrightarrow> f1 mc = F1_LLCY8 K \<Longrightarrow>
   do_shift K sim mc c = (push_bit 8 (reg_l sim) OR drop_bit 8 (reg_l sim), c)"
  by (simp add: do_shift_def shift_labels_def Let_def)

lemma do_shift_lrsh1_plain:
  "shift_labels K \<Longrightarrow> f1 mc = F1_LRSH1 K \<Longrightarrow> f2 mc \<noteq> F2_EMU_MAGIC K \<Longrightarrow> \<not> dns sim \<Longrightarrow>
   do_shift K sim mc c = (drop_bit 1 (reg_l sim), c)"
  by (simp add: do_shift_def shift_labels_def Let_def)

lemma do_shift_llsh1_plain:
  "f1 mc = F1_LLSH1 K \<Longrightarrow> f2 mc \<noteq> F2_EMU_MAGIC K \<Longrightarrow> \<not> dns sim \<Longrightarrow>
   do_shift K sim mc c = (push_bit 1 (reg_l sim), c)"
  by (simp add: do_shift_def Let_def)

text \<open>
  Claim C2, as the code has it. With \<^verbatim>\<open>dns\<close> clear and F2 not \<^verbatim>\<open>MAGIC\<close>, the shifter
  applied twice with \<^verbatim>\<open>F1_LLCY8\<close> gives L back, and \<^verbatim>\<open>F1_LRSH1\<close> followed by
  \<^verbatim>\<open>F1_LLSH1\<close> gives \<^verbatim>\<open>L & 0xFFFE\<close>: the right shift loses bit 0 only, and bit 15 of
  L comes back from bit 14. The second application runs on the simulator whose
  L register holds the first output.
\<close>

theorem shifter_laws:
  assumes "shift_labels K" and "\<not> dns sim"
  shows "(f1 mc = F1_LLCY8 K \<and> f2 mc \<noteq> F2_EMU_MAGIC K \<longrightarrow>
            fst (do_shift K (sim\<lparr>reg_l := fst (do_shift K sim mc c)\<rparr>) mc c') = reg_l sim)
         \<and> (f1 mc1 = F1_LRSH1 K \<and> f2 mc1 \<noteq> F2_EMU_MAGIC K
              \<and> f1 mc2 = F1_LLSH1 K \<and> f2 mc2 \<noteq> F2_EMU_MAGIC K \<longrightarrow>
            fst (do_shift K (sim\<lparr>reg_l := fst (do_shift K sim mc1 c)\<rparr>) mc2 c')
              = reg_l sim AND 0xFFFE)"
proof (intro conjI impI)
  assume h: "f1 mc = F1_LLCY8 K \<and> f2 mc \<noteq> F2_EMU_MAGIC K"
  have once: "do_shift K s0 mc c0 = (push_bit 8 (reg_l s0) OR drop_bit 8 (reg_l s0), c0)"
    for s0 c0 using h assms(1) by (simp add: do_shift_llcy8)
  have upd: "reg_l (sim\<lparr>reg_l := y\<rparr>) = y" for y by simp
  show "fst (do_shift K (sim\<lparr>reg_l := fst (do_shift K sim mc c)\<rparr>) mc c') = reg_l sim"
    by (simp only: once fst_conv upd swap_swap_word)
next
  assume h: "f1 mc1 = F1_LRSH1 K \<and> f2 mc1 \<noteq> F2_EMU_MAGIC K
              \<and> f1 mc2 = F1_LLSH1 K \<and> f2 mc2 \<noteq> F2_EMU_MAGIC K"
  have first: "do_shift K sim mc1 c = (drop_bit 1 (reg_l sim), c)"
    by (rule do_shift_lrsh1_plain) (use h assms in auto)
  have second: "do_shift K s0 mc2 c' = (push_bit 1 (reg_l s0), c')" if "\<not> dns s0" for s0
    by (rule do_shift_llsh1_plain) (use h that in auto)
  have upd: "reg_l (sim\<lparr>reg_l := y\<rparr>) = y" "dns (sim\<lparr>reg_l := y\<rparr>) = dns sim" for y
    by simp_all
  have nd: "\<not> dns (sim\<lparr>reg_l := drop_bit 1 (reg_l sim)\<rparr>)"
    using assms(2) by simp
  show "fst (do_shift K (sim\<lparr>reg_l := fst (do_shift K sim mc1 c)\<rparr>) mc2 c')
              = reg_l sim AND 0xFFFE"
    by (simp only: first fst_conv second [OF nd] upd lsh_rsh_word)
qed

text \<open>The theorem at the Alto codes, for L = 0x1234 and L = 0x1235.\<close>

theorem shifter_laws_witness:
  "shift_labels alto_codes \<and> \<not> dns (reset_simulator\<lparr>reg_l := 0x1234\<rparr>)
   \<and> f1 (example_mc\<lparr>f1 := 6\<rparr>) = F1_LLCY8 alto_codes
   \<and> f2 (example_mc\<lparr>f1 := 6\<rparr>) \<noteq> F2_EMU_MAGIC alto_codes
   \<and> fst (do_shift alto_codes
            (reset_simulator\<lparr>reg_l := 0x1234,
               reg_l := fst (do_shift alto_codes (reset_simulator\<lparr>reg_l := 0x1234\<rparr>)
                               (example_mc\<lparr>f1 := 6\<rparr>) False)\<rparr>)
            (example_mc\<lparr>f1 := 6\<rparr>) False) = 0x1234
   \<and> f1 (example_mc\<lparr>f1 := 5\<rparr>) = F1_LRSH1 alto_codes
   \<and> f2 (example_mc\<lparr>f1 := 5\<rparr>) \<noteq> F2_EMU_MAGIC alto_codes
   \<and> f1 (example_mc\<lparr>f1 := 4\<rparr>) = F1_LLSH1 alto_codes
   \<and> f2 (example_mc\<lparr>f1 := 4\<rparr>) \<noteq> F2_EMU_MAGIC alto_codes
   \<and> fst (do_shift alto_codes
            (reset_simulator\<lparr>reg_l := 0x1235,
               reg_l := fst (do_shift alto_codes (reset_simulator\<lparr>reg_l := 0x1235\<rparr>)
                               (example_mc\<lparr>f1 := 5\<rparr>) False)\<rparr>)
            (example_mc\<lparr>f1 := 4\<rparr>) False) = 0x1234"
proof -
  have l: "shift_labels alto_codes" by (rule alto_labels)
  have d: "\<not> dns (reset_simulator\<lparr>reg_l := 0x1234\<rparr>)" "\<not> dns (reset_simulator\<lparr>reg_l := 0x1235\<rparr>)"
    by (simp_all add: reset_simulator_flags)
  have c: "f1 (example_mc\<lparr>f1 := 6\<rparr>) = F1_LLCY8 alto_codes"
          "f2 (example_mc\<lparr>f1 := 6\<rparr>) \<noteq> F2_EMU_MAGIC alto_codes"
          "f1 (example_mc\<lparr>f1 := 5\<rparr>) = F1_LRSH1 alto_codes"
          "f2 (example_mc\<lparr>f1 := 5\<rparr>) \<noteq> F2_EMU_MAGIC alto_codes"
          "f1 (example_mc\<lparr>f1 := 4\<rparr>) = F1_LLSH1 alto_codes"
          "f2 (example_mc\<lparr>f1 := 4\<rparr>) \<noteq> F2_EMU_MAGIC alto_codes"
    by (simp_all add: alto_codes_def example_mc_def)
  from shifter_laws [OF l d(1), of "example_mc\<lparr>f1 := 6\<rparr>" False False
                       "example_mc\<lparr>f1 := 5\<rparr>" "example_mc\<lparr>f1 := 4\<rparr>"]
       shifter_laws [OF l d(2), of "example_mc\<lparr>f1 := 6\<rparr>" False False
                       "example_mc\<lparr>f1 := 5\<rparr>" "example_mc\<lparr>f1 := 4\<rparr>"]
  show ?thesis using l d c by simp
qed

text \<open>
  Claim C2 as stated asks for \<^verbatim>\<open>L & 0x7FFE\<close>. For L = 0x8000 the right shift gives
  0x4000 and the left shift gives 0x8000 again, which is not \<^verbatim>\<open>0x8000 & 0x7FFE = 0\<close>.
\<close>

theorem shifter_rsh_lsh_counterexample:
  "\<not> dns (reset_simulator\<lparr>reg_l := 0x8000\<rparr>)
   \<and> f1 (example_mc\<lparr>f1 := 5\<rparr>) = F1_LRSH1 alto_codes
   \<and> f2 (example_mc\<lparr>f1 := 5\<rparr>) \<noteq> F2_EMU_MAGIC alto_codes
   \<and> f1 (example_mc\<lparr>f1 := 4\<rparr>) = F1_LLSH1 alto_codes
   \<and> f2 (example_mc\<lparr>f1 := 4\<rparr>) \<noteq> F2_EMU_MAGIC alto_codes
   \<and> fst (do_shift alto_codes
            (reset_simulator\<lparr>reg_l := 0x8000,
               reg_l := fst (do_shift alto_codes (reset_simulator\<lparr>reg_l := 0x8000\<rparr>)
                               (example_mc\<lparr>f1 := 5\<rparr>) False)\<rparr>)
            (example_mc\<lparr>f1 := 4\<rparr>) False)
       \<noteq> reg_l (reset_simulator\<lparr>reg_l := 0x8000\<rparr>) AND 0x7FFE"
  by (simp add: do_shift_def alto_codes_def example_mc_def reset_simulator_flags)

text \<open>
  Claim C3 says that the nova-style right shift puts the incoming carry into
  bit 15. The code tests the pointer and not the carry it points to, so bit 15
  is set for every carry: with \<^verbatim>\<open>dns\<close> set, L = 0 and the carry clear the shifter
  gives 0x8000 where the claim has 0. The new carry is the bit shifted out.
\<close>

theorem do_shift_lrsh1_nova_carry_clear:
  "dns (reset_simulator\<lparr>dns := True\<rparr>)
   \<and> f1 (example_mc\<lparr>f1 := 5\<rparr>) = F1_LRSH1 alto_codes
   \<and> f2 (example_mc\<lparr>f1 := 5\<rparr>) \<noteq> F2_EMU_MAGIC alto_codes
   \<and> reg_l (reset_simulator\<lparr>dns := True\<rparr>) = 0
   \<and> do_shift alto_codes (reset_simulator\<lparr>dns := True\<rparr>) (example_mc\<lparr>f1 := 5\<rparr>) False
       = (0x8000, False)"
  by (simp add: do_shift_def alto_codes_def example_mc_def reset_simulator_flags)

section \<open>The bank registers: claim C10\<close>

lemma is_bank_address_iff: "is_bank_address a \<longleftrightarrow> 0xFFE0 \<le> a \<and> a \<le> 0xFFF0"
  by (simp add: is_bank_address_def XM_BANK_START_def NUM_BANK_SLOTS_def TASK_NUM_TASKS_def
      word_le_nat_alt)

lemma or_fff0_upper: "(0xFFF0 OR (b :: 16 word)) AND 0xFFF0 = 0xFFF0"
  by (rule bit_word_eqI) (auto simp add: bit_simps)

text \<open>
  Claim C10. The range test of \<^verbatim>\<open>simulator_read\<close> and \<^verbatim>\<open>simulator_write\<close> takes the
  seventeen addresses 0xFFE0 to 0xFFF0 for bank registers. With the sixteen
  entries that \<^verbatim>\<open>simulator_create\<close> allocates for \<^verbatim>\<open>xm_banks\<close>, an access at 0xFFF0
  indexes the array at 16, outside of it, for every task and either memory
  flag; the model has no result there. At each address from 0xFFE0 to 0xFFEF
  the read is in range and returns the bank register with its upper twelve
  bits set.
\<close>

theorem bank_register_range:
  assumes "length (xm_banks sim) = NUM_BANK_SLOTS"
  shows "(is_bank_address a \<longleftrightarrow> 0xFFE0 \<le> a \<and> a \<le> 0xFFF0)
         \<and> simulator_read sim 0xFFF0 tsk ext = None
         \<and> simulator_write sim 0xFFF0 data tsk ext = None
         \<and> (0xFFE0 \<le> a \<and> a \<le> 0xFFEF \<longrightarrow>
              simulator_read sim a tsk ext = Some (0xFFF0 OR xm_banks sim ! (unat a - 0xFFE0))
              \<and> unat a - 0xFFE0 < length (xm_banks sim)
              \<and> (0xFFF0 OR xm_banks sim ! (unat a - 0xFFE0)) AND 0xFFF0 = 0xFFF0)"
proof (intro conjI impI)
  show "is_bank_address a \<longleftrightarrow> 0xFFE0 \<le> a \<and> a \<le> 0xFFF0"
    by (rule is_bank_address_iff)
  have top: "is_bank_address 0xFFF0" by (simp add: is_bank_address_iff)
  have out: "unat (0xFFF0 :: 16 word) - unat XM_BANK_START = 16"
    by (simp add: XM_BANK_START_def)
  show "simulator_read sim 0xFFF0 tsk ext = None"
    using assms top out
    by (simp add: simulator_read_def index_def NUM_BANK_SLOTS_def TASK_NUM_TASKS_def)
  show "simulator_write sim 0xFFF0 data tsk ext = None"
    using assms top out
    by (simp add: simulator_write_def store_def NUM_BANK_SLOTS_def TASK_NUM_TASKS_def)
next
  assume h: "0xFFE0 \<le> a \<and> a \<le> 0xFFEF"
  then have b: "is_bank_address a"
    by (simp add: is_bank_address_iff word_le_nat_alt)
  from h have "0xFFE0 \<le> unat a \<and> unat a \<le> 0xFFEF" by (simp add: word_le_nat_alt)
  then have r: "unat a - 0xFFE0 < 16" by arith
  then show "unat a - 0xFFE0 < length (xm_banks sim)"
    using assms by (simp add: NUM_BANK_SLOTS_def TASK_NUM_TASKS_def)
  then show "simulator_read sim a tsk ext = Some (0xFFF0 OR xm_banks sim ! (unat a - 0xFFE0))"
    using b by (simp add: simulator_read_def index_def XM_BANK_START_def)
  show "(0xFFF0 OR xm_banks sim ! (unat a - 0xFFE0)) AND 0xFFF0 = 0xFFF0"
    by (rule or_fff0_upper)
qed

lemma reset_simulator_arrays:
  "xm_banks reset_simulator = replicate 16 0"
  "sr_banks reset_simulator = replicate 16 0"
  "reg_r reset_simulator = replicate 32 0"
  "reg_s reset_simulator = replicate 256 0"
  "mem reset_simulator = replicate 262144 0"
  "task_mpc reset_simulator = map of_nat [0..<16]"
  "const_rom reset_simulator = replicate 256 0"
  "microcode_rom reset_simulator = replicate 4096 0"
  by (simp_all add: reset_simulator_def simulator_reset_def blank_simulator_def
      NUM_BANK_SLOTS_def TASK_NUM_TASKS_def NUM_R_REGISTERS_def NUM_S_REGISTERS_def
      NUM_BANKS_def MEMORY_SIZE_def)

text \<open>The theorem at the reset simulator, for the address 0xFFE3.\<close>

theorem bank_register_range_witness:
  "length (xm_banks reset_simulator) = NUM_BANK_SLOTS
   \<and> simulator_read reset_simulator 0xFFF0 0 False = None
   \<and> simulator_write reset_simulator 0xFFF0 0x1234 0 False = None
   \<and> (0xFFE0 :: 16 word) \<le> 0xFFE3 \<and> (0xFFE3 :: 16 word) \<le> 0xFFEF
   \<and> simulator_read reset_simulator 0xFFE3 0 False = Some 0xFFF0"
proof -
  have l: "length (xm_banks reset_simulator) = NUM_BANK_SLOTS"
    by (simp add: reset_simulator_arrays NUM_BANK_SLOTS_def TASK_NUM_TASKS_def)
  have x: "xm_banks reset_simulator ! 3 = 0"
    by (simp add: reset_simulator_arrays)
  from bank_register_range [OF l, of "0xFFE3" 0 False "0x1234"]
  have "simulator_read reset_simulator 0xFFF0 0 False = None"
    and "simulator_write reset_simulator 0xFFF0 0x1234 0 False = None"
    and "simulator_read reset_simulator 0xFFE3 0 False = Some 0xFFF0"
    by (simp_all add: x)
  then show ?thesis using l by simp
qed

section \<open>Task priority: claim C5\<close>

lemma pending_bit_test: "(p :: 16 word) AND 2 ^ n \<noteq> 0 \<longleftrightarrow> bit p n"
  by (simp add: and_exp_eq_0_iff_not_bit)

lemma task_scan_Some:
  "task_scan n p = Some t \<Longrightarrow> t < n \<and> bit p t \<and> (\<forall>u. t < u \<and> u < n \<longrightarrow> \<not> bit p u)"
proof (induction n)
  case 0
  then show ?case by simp
next
  case (Suc n)
  show ?case
  proof (cases "bit p n")
    case True
    with Suc.prems have "t = n" by (simp add: pending_bit_test)
    with True show ?thesis by auto
  next
    case False
    with Suc.prems have "task_scan n p = Some t" by (simp add: pending_bit_test)
    from Suc.IH [OF this] False show ?thesis
      by (auto simp add: less_Suc_eq)
  qed
qed

lemma task_scan_None: "task_scan n p = None \<longleftrightarrow> (\<forall>u<n. \<not> bit p u)"
  by (induction n) (auto simp add: pending_bit_test less_Suc_eq)

lemma no_pending_bits: "(\<forall>u<16. \<not> bit (p :: 16 word) u) \<longleftrightarrow> p = 0"
proof
  assume "\<forall>u<16. \<not> bit p u"
  then show "p = 0" by (intro bit_word_eqI) simp
next
  assume "p = 0"
  then show "\<forall>u<16. \<not> bit p u" by simp
qed

lemma do_f1_task:
  "f1_labels K \<Longrightarrow> f1 mc = F1_TASK K \<Longrightarrow>
   do_f1 K sim mc bus alu sh =
     Some (case task_scan TASK_NUM_TASKS (pending sim) of
             Some tmp \<Rightarrow> sim\<lparr>ntask := of_nat tmp\<rparr> | None \<Rightarrow> sim)"
  by (auto simp add: do_f1_def f1_labels_def)

text \<open>
  Claim C5. \<^verbatim>\<open>F1_TASK\<close> is defined for every state and changes nothing but
  \<^verbatim>\<open>ntask\<close>, which becomes the highest-numbered task whose pending bit is set:
  the task \<open>t\<close> whose bit is set while every set bit is at \<open>t\<close> or below. So when
  the bits of two tasks A > B are set, \<^verbatim>\<open>ntask\<close> is a pending task among 0..15
  that is A or higher, never B, and no pending task is above it; it is A
  itself when no bit above A is set. When no bit is set at all, \<^verbatim>\<open>ntask\<close> keeps
  its value.
\<close>

theorem task_priority:
  assumes "f1_labels K" and "f1 mc = F1_TASK K"
  shows "\<exists>sim'. do_f1 K sim mc bus alu sh = Some sim'
           \<and> sim' = sim\<lparr>ntask := ntask sim'\<rparr>
           \<and> (\<forall>t. bit (pending sim) t \<and> (\<forall>u. bit (pending sim) u \<longrightarrow> u \<le> t)
                  \<longrightarrow> unat (ntask sim') = t)
           \<and> (\<forall>A B. B < A \<and> bit (pending sim) A \<and> bit (pending sim) B
                  \<longrightarrow> A \<le> unat (ntask sim') \<and> unat (ntask sim') \<noteq> B
                      \<and> unat (ntask sim') < 16 \<and> bit (pending sim) (unat (ntask sim'))
                      \<and> (\<forall>u. bit (pending sim) u \<longrightarrow> u \<le> unat (ntask sim')))
           \<and> (\<forall>A B. B < A \<and> bit (pending sim) A \<and> bit (pending sim) B
                    \<and> (\<forall>u. A < u \<longrightarrow> \<not> bit (pending sim) u)
                  \<longrightarrow> unat (ntask sim') = A)
           \<and> (pending sim \<noteq> 0 \<longrightarrow>
                unat (ntask sim') < 16 \<and> bit (pending sim) (unat (ntask sim'))
                \<and> (\<forall>u. bit (pending sim) u \<longrightarrow> u \<le> unat (ntask sim')))
           \<and> (pending sim = 0 \<longrightarrow> ntask sim' = ntask sim)"
proof (cases "task_scan TASK_NUM_TASKS (pending sim)")
  case None
  then have z: "pending sim = 0"
    by (simp add: task_scan_None TASK_NUM_TASKS_def no_pending_bits)
  have "do_f1 K sim mc bus alu sh = Some sim"
    using assms None by (simp add: do_f1_task)
  with z show ?thesis by simp
next
  case (Some t)
  from task_scan_Some [OF Some]
  have t: "t < 16" "bit (pending sim) t" "\<forall>u. t < u \<and> u < 16 \<longrightarrow> \<not> bit (pending sim) u"
    by (simp_all add: TASK_NUM_TASKS_def)
  have top: "u \<le> t" if "bit (pending sim) u" for u
  proof (rule ccontr)
    assume "\<not> u \<le> t"
    moreover from that have "u < 16" by (auto dest: bit_imp_le_length)
    ultimately show False using t(3) that by auto
  qed
  let ?s' = "sim\<lparr>ntask := of_nat t\<rparr>"
  have u: "unat (ntask ?s') = t"
    using t(1) by (simp add: unsigned_of_nat take_bit_nat_eq_self)
  have nz: "pending sim \<noteq> 0" using t(2) by auto
  have r: "do_f1 K sim mc bus alu sh = Some ?s'"
    using assms Some by (simp add: do_f1_task)
  have c0: "?s' = sim\<lparr>ntask := ntask ?s'\<rparr>" by simp
  have c1: "\<forall>t. bit (pending sim) t \<and> (\<forall>u. bit (pending sim) u \<longrightarrow> u \<le> t)
              \<longrightarrow> unat (ntask ?s') = t"
    unfolding u using top t(2) by (meson order_antisym)
  have c4: "unat (ntask ?s') < 16 \<and> bit (pending sim) (unat (ntask ?s'))
            \<and> (\<forall>u. bit (pending sim) u \<longrightarrow> u \<le> unat (ntask ?s'))"
    unfolding u using t(1,2) top by blast
  have c2: "\<forall>A B. B < A \<and> bit (pending sim) A \<and> bit (pending sim) B
              \<longrightarrow> A \<le> unat (ntask ?s') \<and> unat (ntask ?s') \<noteq> B
                  \<and> unat (ntask ?s') < 16 \<and> bit (pending sim) (unat (ntask ?s'))
                  \<and> (\<forall>u. bit (pending sim) u \<longrightarrow> u \<le> unat (ntask ?s'))"
  proof (intro allI impI)
    fix A B
    assume h: "B < A \<and> bit (pending sim) A \<and> bit (pending sim) B"
    then have "A \<le> t" using top by blast
    moreover from this h have "t \<noteq> B" by simp
    ultimately show "A \<le> unat (ntask ?s') \<and> unat (ntask ?s') \<noteq> B
                  \<and> unat (ntask ?s') < 16 \<and> bit (pending sim) (unat (ntask ?s'))
                  \<and> (\<forall>u. bit (pending sim) u \<longrightarrow> u \<le> unat (ntask ?s'))"
      using c4 unfolding u by blast
  qed
  have c3: "\<forall>A B. B < A \<and> bit (pending sim) A \<and> bit (pending sim) B
              \<and> (\<forall>u. A < u \<longrightarrow> \<not> bit (pending sim) u) \<longrightarrow> unat (ntask ?s') = A"
  proof (intro allI impI)
    fix A B
    assume h: "B < A \<and> bit (pending sim) A \<and> bit (pending sim) B
              \<and> (\<forall>u. A < u \<longrightarrow> \<not> bit (pending sim) u)"
    then have "A \<le> t" using top by blast
    moreover have "\<not> A < t" using h t(2) by blast
    ultimately show "unat (ntask ?s') = A" unfolding u by simp
  qed
  have c5: "pending sim \<noteq> 0 \<longrightarrow>
              unat (ntask ?s') < 16 \<and> bit (pending sim) (unat (ntask ?s'))
              \<and> (\<forall>u. bit (pending sim) u \<longrightarrow> u \<le> unat (ntask ?s'))"
    using c4 by blast
  have c6: "pending sim = 0 \<longrightarrow> ntask ?s' = ntask sim"
    using nz by blast
  show ?thesis
    by (rule exI [of _ ?s']) (intro conjI r c0 c1 c2 c3 c5 c6)
qed

lemma task_scan_numeral:
  "task_scan (numeral k) p =
     (if p AND push_bit (pred_numeral k) 1 \<noteq> 0 then Some (pred_numeral k)
      else task_scan (pred_numeral k) p)"
  by (simp add: numeral_eq_Suc)

lemma bits_of_0x29: "bit (0x29 :: 16 word) u \<Longrightarrow> u \<le> 5"
proof -
  assume b: "bit (0x29 :: 16 word) u"
  have "(0x29 :: 16 word) = take_bit 6 0x29" by simp
  with b have "bit (take_bit 6 (0x29 :: 16 word)) u" by simp
  then have "u < 6" by (simp only: bit_take_bit_iff)
  then show ?thesis by simp
qed

text \<open>
  The theorem at the Alto codes, with the emulator (task 0) and tasks 3 and 5
  pending: \<^verbatim>\<open>ntask\<close> becomes 5.
\<close>

theorem task_priority_witness:
  "f1_labels alto_codes \<and> f1 (example_mc\<lparr>f1 := 2\<rparr>) = F1_TASK alto_codes
   \<and> pending (reset_simulator\<lparr>pending := 0x29\<rparr>) = 0x29
   \<and> (3 :: nat) < 5 \<and> bit (0x29 :: 16 word) 5 \<and> bit (0x29 :: 16 word) 3
   \<and> bit (0x29 :: 16 word) 0
   \<and> (\<exists>sim'. do_f1 alto_codes (reset_simulator\<lparr>pending := 0x29\<rparr>) (example_mc\<lparr>f1 := 2\<rparr>) 0 0 0
                 = Some sim'
              \<and> sim' = reset_simulator\<lparr>pending := 0x29, ntask := ntask sim'\<rparr>
              \<and> unat (ntask sim') = 5)"
proof -
  have l: "f1_labels alto_codes" by (rule alto_labels)
  have c: "f1 (example_mc\<lparr>f1 := 2\<rparr>) = F1_TASK alto_codes"
    by (simp add: alto_codes_def)
  have p: "pending (reset_simulator\<lparr>pending := 0x29\<rparr>) = 0x29" by simp
  have b: "bit (0x29 :: 16 word) 5" "bit (0x29 :: 16 word) 3" "bit (0x29 :: 16 word) 0"
    by simp_all
  have n: "\<forall>u. bit (0x29 :: 16 word) u \<longrightarrow> u \<le> 5"
    using bits_of_0x29 by blast
  from task_priority [OF l c, of "reset_simulator\<lparr>pending := 0x29\<rparr>" 0 0 0]
  obtain sim' where
    s: "do_f1 alto_codes (reset_simulator\<lparr>pending := 0x29\<rparr>) (example_mc\<lparr>f1 := 2\<rparr>) 0 0 0
          = Some sim'"
    and f: "sim' = reset_simulator\<lparr>pending := 0x29, ntask := ntask sim'\<rparr>"
    and a: "\<forall>t. bit (pending (reset_simulator\<lparr>pending := 0x29\<rparr>)) t
                \<and> (\<forall>u. bit (pending (reset_simulator\<lparr>pending := 0x29\<rparr>)) u \<longrightarrow> u \<le> t)
              \<longrightarrow> unat (ntask sim') = t"
    by blast
  from a [rule_format, of 5] b n have "unat (ntask sim') = 5"
    by (simp only: p)
  with s f l c b show ?thesis by auto
qed

section \<open>The memory cycle started by F1 = LOAD_MAR: claim C4\<close>

lemma simulator_read_cong:
  "xm_banks s1 = xm_banks s2 \<Longrightarrow> mem s1 = mem s2 \<Longrightarrow>
   simulator_read s1 a t e = simulator_read s2 a t e"
  by (simp add: simulator_read_def)

lemma do_f1_load_mar_case:
  "f1_labels K \<Longrightarrow> f1 mc = F1_LOAD_MAR K \<Longrightarrow>
   do_f1 K sim mc bus alu sh = do_f1_load_mar K sim mc alu"
  by (auto simp add: do_f1_def f1_labels_def)

text \<open>
  Claim C4. For a microinstruction with \<^verbatim>\<open>F1_LOAD_MAR\<close>, when the two memory reads
  are inside the arrays (they return a word), \<^verbatim>\<open>do_f1\<close> returns a simulator
  in which MAR is the ALU output, \<^verbatim>\<open>mem_which\<close> is 0, \<^verbatim>\<open>mem_task\<close> is the task of
  the microinstruction, \<^verbatim>\<open>mem_extended\<close> holds exactly when F2 is \<^verbatim>\<open>STORE_MD\<close> and the
  system is not an Alto I, \<^verbatim>\<open>mem_low\<close> is what \<^verbatim>\<open>simulator_read\<close> gives at MAR and
  \<^verbatim>\<open>mem_high\<close> what it gives at the paired address, \<^verbatim>\<open>MAR | 1\<close> on an Alto I and
  \<^verbatim>\<open>MAR ^ 1\<close> otherwise.
\<close>

theorem load_mar_memory_cycle:
  assumes "f1_labels K" and "f1 mc = F1_LOAD_MAR K"
    and "ext = (f2 mc = F2_STORE_MD K \<and> sys_type sim \<noteq> ALTO_I)"
    and "pair = (if sys_type sim = ALTO_I then alu OR 1 else alu XOR 1)"
    and "simulator_read sim alu (task mc) ext = Some lo"
    and "simulator_read sim pair (task mc) ext = Some hi"
  shows "\<exists>sim'. do_f1 K sim mc bus alu sh = Some sim'
           \<and> mar sim' = alu \<and> mem_which sim' = 0 \<and> mem_task sim' = task mc
           \<and> mem_extended sim' = ext
           \<and> mem_low sim' = lo \<and> mem_high sim' = hi
           \<and> simulator_read sim' (mar sim') (mem_task sim') (mem_extended sim')
                = Some (mem_low sim')
           \<and> simulator_read sim' pair (mem_task sim') (mem_extended sim')
                = Some (mem_high sim')"
proof -
  let ?s1 = "sim\<lparr>mar := alu, mem_cycle := 0, mem_task := task mc, mem_low := 0xFFFF,
                 mem_high := 0xFFFF,
                 mem_extended := (if sys_type sim \<noteq> ALTO_I then f2 mc = F2_STORE_MD K
                                  else False),
                 mem_which := 0\<rparr>"
  have e: "(if sys_type sim \<noteq> ALTO_I then f2 mc = F2_STORE_MD K else False) = ext"
    using assms(3) by auto
  have p: "(if sys_type sim = ALTO_I then 1 OR alu else 1 XOR alu) = pair"
    using assms(4) by (simp add: or.commute xor.commute)
  have r1: "simulator_read ?s1 alu (task mc) ext = Some lo"
    using assms(5) simulator_read_cong [of "?s1" sim] by simp
  have r2: "simulator_read (?s1\<lparr>mem_low := lo\<rparr>) pair (task mc) ext = Some hi"
    using assms(6) simulator_read_cong [of "(?s1\<lparr>mem_low := lo\<rparr>)" sim] by simp
  have d: "do_f1_load_mar K sim mc alu = Some (?s1\<lparr>mem_low := lo, mem_high := hi\<rparr>)"
    using r1 r2 p by (auto simp add: do_f1_load_mar_def Let_def e)
  have r3: "simulator_read (?s1\<lparr>mem_low := lo, mem_high := hi\<rparr>) alu (task mc) ext = Some lo"
    using assms(5) simulator_read_cong [of "(?s1\<lparr>mem_low := lo, mem_high := hi\<rparr>)" sim] by simp
  have r4: "simulator_read (?s1\<lparr>mem_low := lo, mem_high := hi\<rparr>) pair (task mc) ext = Some hi"
    using assms(6) simulator_read_cong [of "(?s1\<lparr>mem_low := lo, mem_high := hi\<rparr>)" sim] by simp
  show ?thesis
    unfolding do_f1_load_mar_case [OF assms(1,2)] d
    using r3 r4 by (simp add: e)
qed

lemma primed_reads:
  "simulator_read primed_simulator 0x40 0 True = Some 0xAAAA"
  "simulator_read primed_simulator 0x41 0 True = Some 0x5555"
  by (simp_all add: primed_simulator_def simulator_read_def is_bank_address_def
      XM_BANK_START_def index_def bank_number_def MEMORY_SIZE_def reset_simulator_arrays)

text \<open>
  The theorem on an Alto II with the words 0xAAAA and 0x5555 at the addresses
  0x40 and 0x41, for a microinstruction with \<^verbatim>\<open>F1_LOAD_MAR\<close> and \<^verbatim>\<open>F2_STORE_MD\<close>.
\<close>

theorem load_mar_memory_cycle_witness:
  "f1_labels alto_codes
   \<and> f1 (example_mc\<lparr>f1 := 1, f2 := 6\<rparr>) = F1_LOAD_MAR alto_codes
   \<and> (f2 (example_mc\<lparr>f1 := 1, f2 := 6\<rparr>) = F2_STORE_MD alto_codes
        \<and> sys_type primed_simulator \<noteq> ALTO_I)
   \<and> simulator_read primed_simulator 0x40 (task (example_mc\<lparr>f1 := 1, f2 := 6\<rparr>)) True
        = Some 0xAAAA
   \<and> simulator_read primed_simulator 0x41 (task (example_mc\<lparr>f1 := 1, f2 := 6\<rparr>)) True
        = Some 0x5555
   \<and> (\<exists>sim'. do_f1 alto_codes primed_simulator (example_mc\<lparr>f1 := 1, f2 := 6\<rparr>) 0 0x40 0
                  = Some sim'
              \<and> mar sim' = 0x40 \<and> mem_which sim' = 0 \<and> mem_task sim' = 0
              \<and> mem_extended sim' \<and> mem_low sim' = 0xAAAA \<and> mem_high sim' = 0x5555)"
proof -
  let ?mc = "example_mc\<lparr>f1 := 1, f2 := 6\<rparr>"
  have l: "f1_labels alto_codes" by (rule alto_labels)
  have c: "f1 ?mc = F1_LOAD_MAR alto_codes" by (simp add: alto_codes_def)
  have t: "task ?mc = 0" by (simp add: example_mc_def)
  have e: "True = (f2 ?mc = F2_STORE_MD alto_codes \<and> sys_type primed_simulator \<noteq> ALTO_I)"
    by (simp add: alto_codes_def primed_simulator_def reset_simulator_flags)
  have p: "(0x41 :: 16 word) = (if sys_type primed_simulator = ALTO_I then 0x40 OR 1 else 0x40 XOR 1)"
    by (simp add: primed_simulator_def reset_simulator_flags)
  have r1: "simulator_read primed_simulator 0x40 (task ?mc) True = Some 0xAAAA"
    by (simp only: t primed_reads)
  have r2: "simulator_read primed_simulator 0x41 (task ?mc) True = Some 0x5555"
    by (simp only: t primed_reads)
  from load_mar_memory_cycle [OF l c e p r1 r2, of 0 0]
  have "\<exists>sim'. do_f1 alto_codes primed_simulator ?mc 0 0x40 0 = Some sim'
              \<and> mar sim' = 0x40 \<and> mem_which sim' = 0 \<and> mem_task sim' = 0
              \<and> mem_extended sim' \<and> mem_low sim' = 0xAAAA \<and> mem_high sim' = 0x5555"
    by (simp only: t) blast
  with l c e r1 r2 show ?thesis by blast
qed

section \<open>One step of the simulator: claims C7, C6 and C1\<close>

text \<open>
  Claim C7. In a simulator whose error flag is set, \<^verbatim>\<open>simulator_step\<close> returns the
  simulator as it is, so no step can clear the flag; \<^verbatim>\<open>simulator_reset\<close> clears it.
\<close>

theorem sticky_error:
  assumes "error sim"
  shows "simulator_step K sim = Some sim \<and> \<not> error (simulator_reset K sim)"
  using assms by (simp add: simulator_step_def simulator_reset_def)

text \<open>The theorem at the reset simulator with the error flag set.\<close>

theorem sticky_error_witness:
  "error (reset_simulator\<lparr>error := True\<rparr>)
   \<and> simulator_step alto_codes (reset_simulator\<lparr>error := True\<rparr>)
        = Some (reset_simulator\<lparr>error := True\<rparr>)
   \<and> \<not> error (simulator_reset alto_codes (reset_simulator\<lparr>error := True\<rparr>))"
proof -
  have e: "error (reset_simulator\<lparr>error := True\<rparr>)" by simp
  from sticky_error [OF e, of alto_codes] e show ?thesis by simp
qed

subsection \<open>The pending mask through the phases of a step\<close>

lemma read_bus_default_pending:
  "read_bus_default K sim mc out = Some (bus, sim1) \<Longrightarrow> pending sim1 = pending sim"
  by (auto simp add: read_bus_default_def split: if_splits bind_splits)

lemma read_bus_pending:
  "read_bus K sim mc r = Some (bus, sim1) \<Longrightarrow> pending sim1 = pending sim"
  by (auto simp add: read_bus_def Let_def split: if_splits bind_splits
      dest: read_bus_default_pending)

lemma compute_alu_pending:
  "compute_alu K sim mc bus = (alu, c, sim1) \<Longrightarrow> pending sim1 = pending sim"
  by (auto simp add: compute_alu_def split: option.splits)

lemma simulator_write_pending:
  "simulator_write sim a d t e = Some sim1 \<Longrightarrow> pending sim1 = pending sim"
  by (auto simp add: simulator_write_def split: if_splits bind_splits)

lemma load_srb_pending: "load_srb sim mc bus = Some sim1 \<Longrightarrow> pending sim1 = pending sim"
  by (auto simp add: load_srb_def Let_def split: bind_splits)

lemma do_f1_ram_pending:
  "do_f1_ram K sim mc bus = Some fl \<Longrightarrow>
   (case fl of Returned sim1 \<Rightarrow> pending sim1 = pending sim
             | Continues sim1 \<Rightarrow> pending sim1 = pending sim)"
  by (auto simp add: do_f1_ram_def split: if_splits dest: load_srb_pending)

lemma do_f1_emulator_pending:
  "do_f1_emulator K sim mc bus = Some sim1 \<Longrightarrow> pending sim1 = pending sim"
  by (auto simp add: do_f1_emulator_def split: if_splits dest: load_srb_pending)

lemma do_f1_specific_pending:
  "do_f1_specific K sim mc bus = Some sim1 \<Longrightarrow> pending sim1 = pending sim"
  by (auto simp add: do_f1_specific_def split: if_splits bind_splits flow.splits
      dest!: do_f1_ram_pending do_f1_emulator_pending)

lemma do_f1_load_mar_pending:
  "do_f1_load_mar K sim mc alu = Some sim1 \<Longrightarrow> pending sim1 = pending sim"
  by (auto simp add: do_f1_load_mar_def Let_def split: bind_splits)

lemma block_keeps_other_bits:
  "t \<noteq> e \<Longrightarrow> bit (p AND NOT (2 ^ unat t) :: 16 word) (unat e) \<longleftrightarrow> bit p (unat e)"
  for t e :: "8 word"
  by (auto simp add: bit_simps word_unat_eq_iff dest: bit_imp_le_length)

lemma pred_optionI: "(\<And>y. x = Some y \<Longrightarrow> P y) \<Longrightarrow> pred_option P x"
  by (cases x) auto

lemma do_f1_emulator_pending_bit:
  assumes "bit (pending sim) (unat (TASK_EMULATOR K))"
  shows "pred_option (\<lambda>sim1. bit (pending sim1) (unat (TASK_EMULATOR K)))
           (do_f1 K sim mc bus alu sh)"
proof -
  have spec: "pred_option (\<lambda>sim1. bit (pending sim1) (unat (TASK_EMULATOR K)))
                (do_f1_specific K sim mc bus)"
    using assms by (auto intro!: pred_optionI dest!: do_f1_specific_pending)
  have lmar: "pred_option (\<lambda>sim1. bit (pending sim1) (unat (TASK_EMULATOR K)))
                (do_f1_load_mar K sim mc alu)"
    using assms by (auto intro!: pred_optionI dest!: do_f1_load_mar_pending)
  show ?thesis
    unfolding do_f1_def
    using assms spec lmar
    by (simp add: block_keeps_other_bits split: option.split)
qed

lemma do_f2_store_md_pending:
  "do_f2_store_md K sim mc bus = Some sim1 \<Longrightarrow> pending sim1 = pending sim"
  by (auto simp add: do_f2_store_md_def Let_def split: if_splits bind_splits
      dest: simulator_write_pending)

lemma do_f2_emulator_pending:
  "pending (snd (do_f2_emulator K sim mc bus)) = pending sim"
  by (simp add: do_f2_emulator_def Let_def)

lemma do_f2_pending:
  "pred_option (\<lambda>(ne, sim1). pending sim1 = pending sim) (do_f2 K sim mc bus alu sh)"
proof -
  have md: "pred_option (\<lambda>sim1. pending sim1 = pending sim) (do_f2_store_md K sim mc bus)"
    by (auto intro!: pred_optionI dest!: do_f2_store_md_pending)
  have emu: "(case do_f2_emulator K sim mc bus of (ne, sim1) \<Rightarrow> pending sim1 = pending sim)"
    using do_f2_emulator_pending [of K sim mc bus] by (simp add: case_prod_unfold)
  show ?thesis
    unfolding do_f2_def using md emu by (simp add: option.pred_map comp_def)
qed

lemma wb_registers_pending:
  "pred_option (\<lambda>sim1. pending sim1 = pending sim) (wb_registers K sim mc r bus alu sh c)"
  unfolding wb_registers_def Let_def
  by (simp split: bind_split)

lemma update_program_counters_pending:
  "pred_option (\<lambda>sim1. pending sim1 = pending sim) (update_program_counters K sim ne)"
  unfolding update_program_counters_def
  by (simp split: bind_split)

subsection \<open>The cases of a step\<close>

text \<open>
  A step that returns a simulator has stopped at the entry test, after one of the
  four phases that may set the error flag, or has run to the end.
\<close>

lemma simulator_step_cases:
  assumes "simulator_step K sim = Some sim'"
    and "mc = microcode_predecode K (sys_type sim) (mpc sim) (mir sim) (ctask sim)"
    and "r = get_modified_rsel K sim mc"
  obtains (halted) "error sim" "sim' = sim"
  | (bus_error) bus where "\<not> error sim" "read_bus K sim mc r = Some (bus, sim')" "error sim'"
  | (alu_error) bus sim1 alu c where "\<not> error sim" "read_bus K sim mc r = Some (bus, sim1)"
      "\<not> error sim1" "compute_alu K sim1 mc bus = (alu, c, sim')" "error sim'"
  | (f1_error) bus sim1 alu c sim2 sh where "\<not> error sim"
      "read_bus K sim mc r = Some (bus, sim1)" "\<not> error sim1"
      "compute_alu K sim1 mc bus = (alu, c, sim2)" "\<not> error sim2"
      "sh = fst (do_shift K sim2 mc (carry sim2))"
      "do_f1 K sim2 mc bus alu sh = Some sim'" "error sim'"
  | (f2_error) bus sim1 alu c sim2 sh sim3 ne where "\<not> error sim"
      "read_bus K sim mc r = Some (bus, sim1)" "\<not> error sim1"
      "compute_alu K sim1 mc bus = (alu, c, sim2)" "\<not> error sim2"
      "sh = fst (do_shift K sim2 mc (carry sim2))"
      "do_f1 K sim2 mc bus alu sh = Some sim3" "\<not> error sim3"
      "do_f2 K sim3 mc bus alu sh = Some (ne, sim')" "error sim'"
  | (complete) bus sim1 alu c sim2 sh sim3 ne sim4 sim5 where "\<not> error sim"
      "read_bus K sim mc r = Some (bus, sim1)" "\<not> error sim1"
      "compute_alu K sim1 mc bus = (alu, c, sim2)" "\<not> error sim2"
      "sh = fst (do_shift K sim2 mc (carry sim2))"
      "do_f1 K sim2 mc bus alu sh = Some sim3" "\<not> error sim3"
      "do_f2 K sim3 mc bus alu sh = Some (ne, sim4)" "\<not> error sim4"
      "wb_registers K sim4 mc r bus alu sh c = Some sim5"
      "update_program_counters K sim5 ne = Some sim'"
proof (cases "error sim")
  case True
  with assms(1) have "sim' = sim" by (simp add: simulator_step_def)
  with True show ?thesis by (rule halted)
next
  case ne: False
  from assms ne obtain bus sim1 where
    rb: "read_bus K sim mc r = Some (bus, sim1)"
    and k1: "(if error sim1 then Some sim1
              else (let (alu, alu_carry, sim2) = compute_alu K sim1 mc bus in
                 if error sim2 then Some sim2
                 else
                   (let (shifter_output, nova_carry) = do_shift K sim2 mc (carry sim2) in
                    do {
                      sim3 \<leftarrow> do_f1 K sim2 mc bus alu shifter_output;
                      if error sim3 then Some sim3
                      else
                        do {
                          (next_extra, sim4) \<leftarrow> do_f2 K sim3 mc bus alu shifter_output;
                          if error sim4 then Some sim4
                          else
                            do {
                              sim5 \<leftarrow> wb_registers K sim4 mc r bus alu
                                        shifter_output alu_carry;
                              update_program_counters K sim5 next_extra
                            }
                        }
                    }))) = Some sim'"
    by (auto simp add: simulator_step_def Let_def bind_eq_Some_conv)
  show ?thesis
  proof (cases "error sim1")
    case True
    with k1 rb ne show ?thesis by (auto intro: bus_error)
  next
    case e1: False
    obtain alu c sim2 where ca: "compute_alu K sim1 mc bus = (alu, c, sim2)"
      by (cases "compute_alu K sim1 mc bus") auto
    show ?thesis
    proof (cases "error sim2")
      case True
      with k1 e1 ca rb ne show ?thesis by (auto intro: alu_error)
    next
      case e2: False
      obtain sh nc where ds: "do_shift K sim2 mc (carry sim2) = (sh, nc)"
        by (cases "do_shift K sim2 mc (carry sim2)") auto
      then have sh_def: "sh = fst (do_shift K sim2 mc (carry sim2))" by simp
      from k1 e1 ca e2 ds have
        "do_f1 K sim2 mc bus alu sh \<bind>
          (\<lambda>sim3.
              if error sim3 then Some sim3
              else do_f2 K sim3 mc bus alu sh \<bind>
                   (\<lambda>(next_extra, sim4).
                       if error sim4 then Some sim4
                       else wb_registers K sim4 mc r bus alu sh c \<bind>
                            (\<lambda>sim5. update_program_counters K sim5 next_extra)))
         = Some sim'"
        by (simp add: Let_def)
      then obtain sim3 where
        f1: "do_f1 K sim2 mc bus alu sh = Some sim3"
        and k3: "(if error sim3 then Some sim3
                  else do {
                          (next_extra, sim4) \<leftarrow> do_f2 K sim3 mc bus alu sh;
                          if error sim4 then Some sim4
                          else
                            do {
                              sim5 \<leftarrow> wb_registers K sim4 mc r bus alu sh c;
                              update_program_counters K sim5 next_extra
                            }
                        }) = Some sim'"
        unfolding bind_eq_Some_conv by blast
      show ?thesis
      proof (cases "error sim3")
        case True
        with k3 f1 e2 ca e1 rb ne sh_def show ?thesis by (auto intro: f1_error)
      next
        case e3: False
        from k3 e3 have
          "do_f2 K sim3 mc bus alu sh \<bind>
             (\<lambda>(next_extra, sim4).
                 if error sim4 then Some sim4
                 else wb_registers K sim4 mc r bus alu sh c \<bind>
                      (\<lambda>sim5. update_program_counters K sim5 next_extra))
           = Some sim'"
          by simp
        then obtain ne' sim4 where
          f2: "do_f2 K sim3 mc bus alu sh = Some (ne', sim4)"
          and k4: "(if error sim4 then Some sim4
                    else do {
                           sim5 \<leftarrow> wb_registers K sim4 mc r bus alu sh c;
                           update_program_counters K sim5 ne'
                         }) = Some sim'"
          unfolding bind_eq_Some_conv by auto
        show ?thesis
        proof (cases "error sim4")
          case True
          with k4 f2 e3 f1 e2 ca e1 rb ne sh_def show ?thesis by (auto intro: f2_error)
        next
          case e4: False
          from k4 e4 have
            "wb_registers K sim4 mc r bus alu sh c \<bind>
               (\<lambda>sim5. update_program_counters K sim5 ne') = Some sim'"
            by simp
          then obtain sim5 where
            wb: "wb_registers K sim4 mc r bus alu sh c = Some sim5"
            and up: "update_program_counters K sim5 ne' = Some sim'"
            unfolding bind_eq_Some_conv by blast
          from ne rb e1 ca e2 sh_def f1 e3 f2 e4 wb up show ?thesis by (rule complete)
        qed
      qed
    qed
  qed
qed

lemma pred_optionD: "pred_option P x \<Longrightarrow> x = Some y \<Longrightarrow> P y"
  by simp

lemma simulator_step_pending_bit:
  assumes "simulator_step K sim = Some sim'"
    and "bit (pending sim) (unat (TASK_EMULATOR K))"
  shows "bit (pending sim') (unat (TASK_EMULATOR K))"
  using assms(1) refl refl
proof (cases rule: simulator_step_cases)
  case halted
  with assms(2) show ?thesis by simp
next
  case (bus_error bus)
  with assms(2) show ?thesis by (simp add: read_bus_pending)
next
  case (alu_error bus sim1 alu c)
  with assms(2) show ?thesis by (simp add: read_bus_pending compute_alu_pending)
next
  case (f1_error bus sim1 alu c sim2 sh)
  then have "bit (pending sim2) (unat (TASK_EMULATOR K))"
    using assms(2) by (simp add: read_bus_pending compute_alu_pending)
  from pred_optionD [OF do_f1_emulator_pending_bit [OF this] f1_error(7)]
  show ?thesis .
next
  case (f2_error bus sim1 alu c sim2 sh sim3 ne)
  then have "bit (pending sim2) (unat (TASK_EMULATOR K))"
    using assms(2) by (simp add: read_bus_pending compute_alu_pending)
  from pred_optionD [OF do_f1_emulator_pending_bit [OF this] f2_error(7)]
  have "bit (pending sim3) (unat (TASK_EMULATOR K))" .
  moreover from pred_optionD [OF do_f2_pending f2_error(9)]
  have "pending sim' = pending sim3" by simp
  ultimately show ?thesis by simp
next
  case (complete bus sim1 alu c sim2 sh sim3 ne sim4 sim5)
  then have "bit (pending sim2) (unat (TASK_EMULATOR K))"
    using assms(2) by (simp add: read_bus_pending compute_alu_pending)
  from pred_optionD [OF do_f1_emulator_pending_bit [OF this] complete(7)]
  have "bit (pending sim3) (unat (TASK_EMULATOR K))" .
  moreover from pred_optionD [OF do_f2_pending complete(9)]
  have "pending sim4 = pending sim3" by simp
  moreover from pred_optionD [OF wb_registers_pending complete(11)]
  have "pending sim5 = pending sim4" .
  moreover from pred_optionD [OF update_program_counters_pending complete(12)]
  have "pending sim' = pending sim5" .
  ultimately show ?thesis by simp
qed

lemma run_steps_pending_bit:
  "run_steps K n sim = Some sim' \<Longrightarrow> bit (pending sim) (unat (TASK_EMULATOR K)) \<Longrightarrow>
   bit (pending sim') (unat (TASK_EMULATOR K))"
proof (induction n arbitrary: sim)
  case 0
  then show ?case by simp
next
  case (Suc n)
  from Suc.prems(1) obtain sim1 where
    s: "simulator_step K sim = Some sim1" and r: "run_steps K n sim1 = Some sim'"
    by (auto split: option.splits)
  from simulator_step_pending_bit [OF s Suc.prems(2)] Suc.IH [OF r]
  show ?case by simp
qed

text \<open>
  Claim C6. In every simulator reached from \<^verbatim>\<open>simulator_reset\<close> by a finite number
  of \<^verbatim>\<open>simulator_step\<close> calls, \<^verbatim>\<open>pending & (1 << TASK_EMULATOR)\<close> is not zero. The
  emulator task is one of the sixteen tasks, so that its bit lies in the mask.
\<close>

theorem emulator_always_pending:
  assumes "unat (TASK_EMULATOR K) < 16"
    and "run_steps K n (simulator_reset K sim0) = Some sim"
  shows "pending sim AND push_bit (unat (TASK_EMULATOR K)) 1 \<noteq> 0"
proof -
  have "bit (pending (simulator_reset K sim0)) (unat (TASK_EMULATOR K))"
    using assms(1) by (simp add: simulator_reset_def bit_simps)
  from run_steps_pending_bit [OF assms(2) this]
  show ?thesis by (simp add: and_exp_eq_0_iff_not_bit)
qed

text \<open>
  One step from the reset simulator: the microinstruction 0 does nothing but
  advance the cycle counters.
\<close>

lemma example_predecode_0:
  "example_predecode ALTO_II_3KRAM 0 0 0 =
     \<lparr>rsel = 0, aluf = 0, bs = 0, f1 = 0, f2 = 0, load_t = False, load_l = False,
      load_t_from_alu = False, use_constant = False, bs_use_crom = False,
      const_addr = 0, ram_task = True, task = 0\<rparr>"
  by (simp add: example_predecode_def)

lemma nop_step:
  "simulator_step alto_codes reset_simulator
     = Some (reset_simulator\<lparr>cycle := 1, mem_cycle := 1\<rparr>)"
  unfolding reset_simulator_def simulator_reset_def blank_simulator_def
  apply (simp add: simulator_step_def alto_codes_def example_predecode_0 Let_def
      get_modified_rsel_def read_bus_def index_def compute_alu_def alu_switch_def
      do_shift_def do_f1_def do_f1_specific_def do_f1_ram_def do_f1_emulator_def
      do_f2_def wb_registers_def update_program_counters_def store_def
      NUM_R_REGISTERS_def NUM_S_REGISTERS_def NUM_BANK_SLOTS_def TASK_NUM_TASKS_def
      NUM_BANKS_def MEMORY_SIZE_def MPC_BANK_MASK_def list_update_same_conv)
  done

text \<open>The theorem for that step.\<close>

theorem emulator_always_pending_witness:
  "unat (TASK_EMULATOR alto_codes) < 16
   \<and> run_steps alto_codes 1 (simulator_reset alto_codes blank_simulator)
       = Some (reset_simulator\<lparr>cycle := 1, mem_cycle := 1\<rparr>)
   \<and> pending (reset_simulator\<lparr>cycle := 1, mem_cycle := 1\<rparr>)
         AND push_bit (unat (TASK_EMULATOR alto_codes)) 1 \<noteq> 0"
proof -
  have a: "unat (TASK_EMULATOR alto_codes) < 16" by (simp add: alto_codes_def)
  have r: "run_steps alto_codes 1 (simulator_reset alto_codes blank_simulator)
             = Some (reset_simulator\<lparr>cycle := 1, mem_cycle := 1\<rparr>)"
    using nop_step by (simp add: reset_simulator_def)
  from emulator_always_pending [OF a r] a r show ?thesis by blast
qed

subsection \<open>The bus read stays inside the arrays\<close>

lemma unat_less_exp_iff_bits:
  fixes x :: "16 word"
  shows "unat x < 2 ^ k \<longleftrightarrow> (\<forall>n. bit x n \<longrightarrow> n < k)"
proof -
  have "(\<forall>n. bit x n \<longrightarrow> n < k) \<longleftrightarrow> take_bit k x = x"
  proof
    assume "\<forall>n. bit x n \<longrightarrow> n < k"
    then show "take_bit k x = x"
      by (intro bit_word_eqI) (auto simp add: bit_take_bit_iff)
  next
    assume e: "take_bit k x = x"
    show "\<forall>n. bit x n \<longrightarrow> n < k"
    proof (intro allI impI)
      fix n assume "bit x n"
      with e have "bit (take_bit k x) n" by simp
      then show "n < k" by (simp add: bit_take_bit_iff)
    qed
  qed
  also have "\<dots> \<longleftrightarrow> unat (take_bit k x) = unat x"
    by (simp add: word_unat_eq_iff)
  also have "\<dots> \<longleftrightarrow> take_bit k (unat x) = unat x"
    by (simp add: unsigned_take_bit_eq)
  also have "\<dots> \<longleftrightarrow> unat x < 2 ^ k"
    by (simp add: take_bit_nat_eq_self_iff)
  finally show ?thesis by simp
qed

lemma modified_rsel_bound:
  fixes r a z :: "16 word"
  assumes "unat r < 32"
  shows "unat ((r AND a) OR (z AND 3)) < 32"
proof -
  have r: "bit r n \<Longrightarrow> n < 5" for n
    using assms unat_less_exp_iff_bits [of r 5] by simp
  have t: "bit (3 :: 16 word) n \<Longrightarrow> n < 5" for n
    using unat_less_exp_iff_bits [of 3 2] by fastforce
  have "\<forall>n. bit ((r AND a) OR (z AND 3)) n \<longrightarrow> n < 5"
    by (auto simp only: bit_or_iff bit_and_iff dest: r t)
  then show ?thesis
    using unat_less_exp_iff_bits [of "(r AND a) OR (z AND 3)" 5] by simp
qed

lemma get_modified_rsel_bound:
  "unat (rsel mc) < 32 \<Longrightarrow> unat (get_modified_rsel K sim mc) < 32"
  by (simp add: get_modified_rsel_def modified_rsel_bound)

lemma index_Some: "i < length xs \<Longrightarrow> index xs i = Some (xs ! i)"
  by (simp add: index_def)

lemma read_bus_default_defined:
  assumes "arrays_allocated sim" and "mc_in_range sim mc"
  shows "read_bus_default K sim mc out \<noteq> None"
proof -
  have t: "unat (task mc) < length (sr_banks sim)"
    using assms by (simp add: arrays_allocated_def mc_in_range_def NUM_BANK_SLOTS_def)
  then have "sr_banks sim ! unat (task mc) \<in> set (sr_banks sim)" by simp
  then have "unat (sr_banks sim ! unat (task mc)) < 8"
    using assms(1) by (simp add: arrays_allocated_def list_all_iff)
  moreover have "unat (rsel mc) < 32"
    using assms(2) by (simp add: mc_in_range_def NUM_R_REGISTERS_def)
  ultimately have
    "unat (sr_banks sim ! unat (task mc)) * NUM_R_REGISTERS + unat (rsel mc) < length (reg_s sim)"
    using assms(1) by (simp add: arrays_allocated_def NUM_S_REGISTERS_def NUM_R_REGISTERS_def)
  with t show ?thesis
    by (auto simp add: read_bus_default_def index_def)
qed

lemma read_bus_defined:
  assumes "arrays_allocated sim" and "mc_in_range sim mc"
  shows "read_bus K sim mc (get_modified_rsel K sim mc) \<noteq> None"
proof -
  have c: "index (const_rom sim) (const_addr mc) = Some (const_rom sim ! const_addr mc)"
    using assms(2) by (simp add: mc_in_range_def index_Some)
  have "unat (get_modified_rsel K sim mc) < 32"
    using assms(2) by (simp add: mc_in_range_def NUM_R_REGISTERS_def get_modified_rsel_bound)
  then have r: "index (reg_r sim) (unat (get_modified_rsel K sim mc))
                  = Some (reg_r sim ! unat (get_modified_rsel K sim mc))"
    using assms(1) by (simp add: arrays_allocated_def NUM_R_REGISTERS_def index_Some)
  have d: "read_bus_default K sim mc out \<noteq> None" for out
    using assms by (rule read_bus_default_defined)
  show ?thesis
    using c r d by (auto simp add: read_bus_def Let_def)
qed

subsection \<open>What the bus read and the ALU change\<close>

lemma read_bus_default_frame:
  "read_bus_default K sim mc out = Some (bus, sim1) \<Longrightarrow> sim1 = sim\<lparr>error := error sim1\<rparr>"
  by (auto simp add: read_bus_default_def split: if_splits bind_splits)

lemma read_bus_frame_constant:
  "use_constant mc \<Longrightarrow> read_bus K sim mc r = Some (bus, sim1) \<Longrightarrow> sim1 = sim"
  by (auto simp add: read_bus_def split: bind_splits)

lemma read_bus_frame_md:
  assumes "bs_labels K" and "\<not> use_constant mc" and "bs mc = BS_READ_MD K"
    and "read_bus K sim mc r = Some (bus, sim1)"
  shows "sim1 = sim\<lparr>mem_which := 1 XOR mem_which sim\<rparr>"
proof -
  from assms(1) have "BS_READ_MD K \<noteq> BS_READ_R K" "BS_READ_MD K \<noteq> BS_LOAD_R K"
    "BS_READ_MD K \<noteq> BS_NONE K" by (auto simp add: bs_labels_def)
  with assms(2,3,4) show ?thesis
    by (auto simp add: read_bus_def split: bind_splits)
qed

lemma read_bus_frame_other:
  assumes "\<not> use_constant mc" and "bs mc \<noteq> BS_READ_MD K"
    and "read_bus K sim mc r = Some (bus, sim1)"
  shows "sim1 = sim\<lparr>error := error sim1\<rparr>"
  using assms
  by (auto simp add: read_bus_def Let_def split: if_splits bind_splits
      dest: read_bus_default_frame)

lemma compute_alu_frame:
  "compute_alu K sim mc bus = (alu, c, sim1) \<Longrightarrow> sim1 = sim\<lparr>error := error sim1\<rparr>"
  by (auto simp add: compute_alu_def split: option.splits)

lemma do_f1_block_emulator:
  assumes "f1_labels K" and "f1 mc = F1_BLOCK K" and "task mc = TASK_EMULATOR K"
  shows "do_f1 K sim mc bus alu sh = Some (sim\<lparr>error := True\<rparr>)"
proof -
  from assms(1) have "F1_BLOCK K \<noteq> F1_NONE K" "F1_BLOCK K \<noteq> F1_CONSTANT K"
    "F1_BLOCK K \<noteq> F1_LLSH1 K" "F1_BLOCK K \<noteq> F1_LRSH1 K" "F1_BLOCK K \<noteq> F1_LLCY8 K"
    "F1_BLOCK K \<noteq> F1_LOAD_MAR K" "F1_BLOCK K \<noteq> F1_TASK K"
    by (auto simp add: f1_labels_def)
  with assms(2,3) show ?thesis by (simp add: do_f1_def)
qed

lemma record_fix:
  "sim\<lparr>mem_which := mem_which sim, error := error sim\<rparr> = (sim :: simulator)"
  "sim\<lparr>error := error sim\<rparr> = (sim :: simulator)"
  "sim\<lparr>mem_which := mem_which sim\<rparr> = (sim :: simulator)"
  by simp_all

text \<open>
  Claim C1, as the code has it. Take a simulator that is not in error, whose
  arrays are allocated and whose predecoded microinstruction stays inside them,
  with \<^verbatim>\<open>F1_BLOCK\<close> in the emulator task. Then \<^verbatim>\<open>simulator_step\<close> returns, the error
  flag is set, and every other component is as before, except \<^verbatim>\<open>mem_which\<close>: the
  bus read comes before the F1 phase, and with the bus source \<^verbatim>\<open>READ_MD\<close> (and no
  constant on the bus) it has already toggled \<^verbatim>\<open>mem_which\<close>. This holds for
  every BS, ALUF and F2.
\<close>

theorem emulator_cannot_block:
  assumes "f1_labels K" and "bs_labels K"
    and "\<not> error sim" and "arrays_allocated sim"
    and "mc = microcode_predecode K (sys_type sim) (mpc sim) (mir sim) (ctask sim)"
    and "mc_in_range sim mc"
    and "f1 mc = F1_BLOCK K" and "task mc = TASK_EMULATOR K"
  shows "simulator_step K sim =
           Some (sim\<lparr>error := True,
                     mem_which := (if \<not> use_constant mc \<and> bs mc = BS_READ_MD K
                                   then 1 XOR mem_which sim else mem_which sim)\<rparr>)"
proof -
  define W where "W = (if \<not> use_constant mc \<and> bs mc = BS_READ_MD K
            then 1 XOR mem_which sim else mem_which sim)"
  let ?r = "get_modified_rsel K sim mc"
  from read_bus_defined [OF assms(4,6), of K]
  obtain bus sim1 where rb: "read_bus K sim mc ?r = Some (bus, sim1)" by auto
  define e1 where "e1 = error sim1"
  have fr1: "sim1 = sim\<lparr>mem_which := W, error := e1\<rparr>"
  proof (cases "use_constant mc")
    case True
    from read_bus_frame_constant [OF True rb] True show ?thesis
      by (simp add: W_def e1_def)
  next
    case nc: False
    show ?thesis
    proof (cases "bs mc = BS_READ_MD K")
      case True
      from read_bus_frame_md [OF assms(2) nc True rb] nc True show ?thesis
        by (simp add: W_def e1_def)
    next
      case False
      from read_bus_frame_other [OF nc False rb] have "sim1 = sim\<lparr>error := e1\<rparr>"
        by (simp only: e1_def)
      with nc False show ?thesis by (simp add: W_def)
    qed
  qed
  obtain alu c sim2 where ca: "compute_alu K sim1 mc bus = (alu, c, sim2)"
    by (cases "compute_alu K sim1 mc bus") auto
  define e2 where "e2 = error sim2"
  have "sim2 = sim1\<lparr>error := e2\<rparr>"
    unfolding e2_def using ca by (rule compute_alu_frame)
  with fr1 have fr2: "sim2 = sim\<lparr>mem_which := W, error := e2\<rparr>" by simp
  have f1: "do_f1 K sim2 mc bus alu sh = Some (sim2\<lparr>error := True\<rparr>)" for sh
    using assms(1,7,8) by (rule do_f1_block_emulator)
  have s: "simulator_step K sim =
             (if error sim1 then Some sim1
              else if error sim2 then Some sim2
              else Some (sim2\<lparr>error := True\<rparr>))"
    using rb ca f1 assms(3,5) by (simp add: simulator_step_def Let_def case_prod_unfold)
  have "simulator_step K sim = Some (sim\<lparr>mem_which := W, error := True\<rparr>)"
  proof (cases "error sim1")
    case True
    then have "e1" by (simp add: e1_def)
    with fr1 True s show ?thesis by simp
  next
    case n1: False
    show ?thesis
    proof (cases "error sim2")
      case True
      then have "e2" by (simp add: e2_def)
      with fr2 True n1 s show ?thesis by simp
    next
      case False
      with n1 s fr2 show ?thesis by simp
    qed
  qed
  then show ?thesis by (simp add: W_def)
qed

text \<open>
  The theorem at the reset simulator with the microinstruction 0x030000:
  bus source \<^verbatim>\<open>READ_R\<close>, \<^verbatim>\<open>F1_BLOCK\<close>, emulator task.
\<close>

lemma example_predecode_block:
  "example_predecode ALTO_II_3KRAM 0 0x030000 0 =
     \<lparr>rsel = 0, aluf = 0, bs = 0, f1 = 3, f2 = 0, load_t = False, load_l = False,
      load_t_from_alu = False, use_constant = False, bs_use_crom = False,
      const_addr = 0, ram_task = True, task = 0\<rparr>"
  "example_predecode ALTO_II_3KRAM 0 0x530000 0 =
     \<lparr>rsel = 0, aluf = 0, bs = 5, f1 = 3, f2 = 0, load_t = False, load_l = False,
      load_t_from_alu = False, use_constant = False, bs_use_crom = False,
      const_addr = 5, ram_task = True, task = 0\<rparr>"
  by (simp_all add: example_predecode_def)

lemma reset_simulator_registers:
  "mpc reset_simulator = 0" "mir reset_simulator = 0" "ctask reset_simulator = 0"
  "mem_which reset_simulator = 0" "pending reset_simulator = 1"
  "mem_low reset_simulator = 0xFFFF" "reg_t reset_simulator = 0"
  by (simp_all add: reset_simulator_def simulator_reset_def blank_simulator_def alto_codes_def)

lemma reset_simulator_allocated: "arrays_allocated (reset_simulator\<lparr>mir := m\<rparr>)"
  by (simp add: arrays_allocated_def reset_simulator_arrays NUM_R_REGISTERS_def
      NUM_S_REGISTERS_def NUM_BANK_SLOTS_def TASK_NUM_TASKS_def list_all_iff)

theorem emulator_cannot_block_witness:
  "f1_labels alto_codes \<and> bs_labels alto_codes
   \<and> \<not> error (reset_simulator\<lparr>mir := 0x030000\<rparr>)
   \<and> arrays_allocated (reset_simulator\<lparr>mir := 0x030000\<rparr>)
   \<and> mc_in_range (reset_simulator\<lparr>mir := 0x030000\<rparr>)
        (example_predecode ALTO_II_3KRAM 0 0x030000 0)
   \<and> f1 (example_predecode ALTO_II_3KRAM 0 0x030000 0) = F1_BLOCK alto_codes
   \<and> task (example_predecode ALTO_II_3KRAM 0 0x030000 0) = TASK_EMULATOR alto_codes
   \<and> simulator_step alto_codes (reset_simulator\<lparr>mir := 0x030000\<rparr>)
       = Some (reset_simulator\<lparr>mir := 0x030000, error := True\<rparr>)"
proof -
  let ?s = "reset_simulator\<lparr>mir := 0x030000\<rparr>"
  let ?mc = "example_predecode ALTO_II_3KRAM 0 0x030000 0"
  have l: "f1_labels alto_codes" "bs_labels alto_codes" by (rule alto_labels)+
  have e: "\<not> error ?s" by (simp add: reset_simulator_flags)
  have a: "arrays_allocated ?s" by (rule reset_simulator_allocated)
  have m: "?mc = microcode_predecode alto_codes (sys_type ?s) (mpc ?s) (mir ?s) (ctask ?s)"
    by (simp add: alto_codes_def reset_simulator_flags reset_simulator_registers)
  have r: "mc_in_range ?s ?mc"
    by (simp add: mc_in_range_def example_predecode_block reset_simulator_arrays
        NUM_R_REGISTERS_def TASK_NUM_TASKS_def)
  have f: "f1 ?mc = F1_BLOCK alto_codes" "task ?mc = TASK_EMULATOR alto_codes"
    by (simp_all add: example_predecode_block alto_codes_def)
  have b: "bs ?mc \<noteq> BS_READ_MD alto_codes"
    by (simp add: example_predecode_block alto_codes_def)
  from emulator_cannot_block [OF l e a m r f] b
  have "simulator_step alto_codes ?s = Some (?s\<lparr>error := True\<rparr>)" by simp
  with l e a r f show ?thesis by simp
qed

text \<open>
  Claim C1 as stated leaves every component but the error flag unchanged. With
  the microinstruction 0x530000 (bus source \<^verbatim>\<open>READ_MD\<close>, \<^verbatim>\<open>F1_BLOCK\<close>) in the
  emulator task, the step sets the error flag and \<^verbatim>\<open>mem_which\<close> goes from 0 to 1.
\<close>

theorem emulator_block_read_md_counterexample:
  "\<not> error (reset_simulator\<lparr>mir := 0x530000\<rparr>)
   \<and> ctask (reset_simulator\<lparr>mir := 0x530000\<rparr>) = TASK_EMULATOR alto_codes
   \<and> f1 (microcode_predecode alto_codes ALTO_II_3KRAM 0 0x530000 0) = F1_BLOCK alto_codes
   \<and> task (microcode_predecode alto_codes ALTO_II_3KRAM 0 0x530000 0) = TASK_EMULATOR alto_codes
   \<and> simulator_step alto_codes (reset_simulator\<lparr>mir := 0x530000\<rparr>)
       = Some (reset_simulator\<lparr>mir := 0x530000, mem_which := 1, error := True\<rparr>)
   \<and> mem_which (reset_simulator\<lparr>mir := 0x530000\<rparr>) = 0"
  unfolding reset_simulator_def simulator_reset_def blank_simulator_def
  by (simp add: simulator_step_def alto_codes_def example_predecode_block Let_def
      get_modified_rsel_def read_bus_def index_def compute_alu_def alu_switch_def
      do_shift_def do_f1_def
      NUM_R_REGISTERS_def NUM_S_REGISTERS_def NUM_BANK_SLOTS_def TASK_NUM_TASKS_def
      NUM_BANKS_def MEMORY_SIZE_def)

section \<open>Transport framing: claim C8\<close>

subsection \<open>Filling and sending the TX buffer\<close>

lemma word_bytes_join:
  "push_bit 8 (ucast (ucast (drop_bit 8 w) :: 8 word)) OR ucast (ucast w :: 8 word) = (w :: 16 word)"
  by (rule bit_word_eqI) (auto simp add: bit_simps)

lemma take_two_updates:
  "Suc (Suc p) \<le> length xs \<Longrightarrow>
   take (Suc (Suc p)) (xs[p := a, Suc p := b]) = take p xs @ [a, b]"
  by (rule nth_equalityI) (auto simp add: nth_append nth_list_update less_Suc_eq)

lemma trp_append_tx_next:
  assumes "tx_pos utrp \<noteq> 0" and "tx_pos utrp + 2 \<le> UDP_PACKET_SIZE"
    and "length (tx_buf utrp) = UDP_PACKET_SIZE"
  shows "trp_append_tx utrp w =
           Some (True, utrp\<lparr>tx_buf := (tx_buf utrp)[tx_pos utrp := ucast (drop_bit 8 w),
                                                     Suc (tx_pos utrp) := ucast w],
                              tx_pos := tx_pos utrp + 2\<rparr>)"
  using assms by (simp add: trp_append_tx_def store_def)

lemma append_words_next:
  assumes "tx_pos utrp \<noteq> 0" and "tx_pos utrp + 2 * length ws \<le> UDP_PACKET_SIZE"
    and "length (tx_buf utrp) = UDP_PACKET_SIZE"
  shows "\<exists>utrp1. append_words utrp ws = Some (True, utrp1)
           \<and> tx_pos utrp1 = tx_pos utrp + 2 * length ws
           \<and> length (tx_buf utrp1) = UDP_PACKET_SIZE
           \<and> take (tx_pos utrp1) (tx_buf utrp1)
               = take (tx_pos utrp) (tx_buf utrp) @ concat (map word_bytes ws)"
  using assms
proof (induction ws arbitrary: utrp)
  case Nil
  then show ?case by simp
next
  case (Cons w ws)
  let ?u = "utrp\<lparr>tx_buf := (tx_buf utrp)[tx_pos utrp := ucast (drop_bit 8 w),
                                             Suc (tx_pos utrp) := ucast w],
                     tx_pos := tx_pos utrp + 2\<rparr>"
  have a: "trp_append_tx utrp w = Some (True, ?u)"
    using Cons.prems by (intro trp_append_tx_next) simp_all
  have "\<exists>utrp1. append_words ?u ws = Some (True, utrp1)
           \<and> tx_pos utrp1 = tx_pos ?u + 2 * length ws
           \<and> length (tx_buf utrp1) = UDP_PACKET_SIZE
           \<and> take (tx_pos utrp1) (tx_buf utrp1)
               = take (tx_pos ?u) (tx_buf ?u) @ concat (map word_bytes ws)"
    using Cons.prems by (intro Cons.IH) simp_all
  then obtain utrp1 where
    r: "append_words ?u ws = Some (True, utrp1)"
    and p: "tx_pos utrp1 = tx_pos ?u + 2 * length ws"
    and l: "length (tx_buf utrp1) = UDP_PACKET_SIZE"
    and t: "take (tx_pos utrp1) (tx_buf utrp1)
              = take (tx_pos ?u) (tx_buf ?u) @ concat (map word_bytes ws)"
    by blast
  have "take (tx_pos ?u) (tx_buf ?u) = take (tx_pos utrp) (tx_buf utrp) @ word_bytes w"
    using Cons.prems by (simp add: take_two_updates word_bytes_def)
  with a r p l t show ?case by simp
qed

lemma trp_append_tx_first:
  assumes "tx_pos utrp = 0" and "length (tx_buf utrp) = UDP_PACKET_SIZE"
  shows "trp_append_tx utrp w =
           Some (True, utrp\<lparr>tx_pos := 4,
                              tx_buf := (tx_buf utrp)[0 := 0, 1 := 0,
                                                      2 := ucast (drop_bit 8 w),
                                                      3 := ucast w]\<rparr>)"
  using assms by (simp add: trp_append_tx_def store_def UDP_PACKET_SIZE_def)

lemma take_four_updates:
  assumes "4 \<le> length xs"
  shows "take 4 (xs[0 := a, Suc 0 := b, 2 := c, 3 := d]) = [a, b, c, d]"
proof -
  have "take (Suc (Suc 2)) ((xs[0 := a, Suc 0 := b])[2 := c, Suc 2 := d])
          = take 2 (xs[0 := a, Suc 0 := b]) @ [c, d]"
    using assms by (intro take_two_updates) simp
  moreover have "take (Suc (Suc 0)) (xs[0 := a, Suc 0 := b]) = take 0 xs @ [a, b]"
    using assms by (intro take_two_updates) simp
  ultimately show ?thesis by (simp add: numeral_2_eq_2 [symmetric])
qed

lemma append_words_cleared:
  assumes "tx_pos utrp = 0" and "length (tx_buf utrp) = UDP_PACKET_SIZE"
    and "ws \<noteq> []" and "2 + 2 * length ws \<le> UDP_PACKET_SIZE"
  shows "\<exists>utrp1. append_words utrp ws = Some (True, utrp1)
           \<and> tx_pos utrp1 = 2 + 2 * length ws
           \<and> length (tx_buf utrp1) = UDP_PACKET_SIZE
           \<and> take (tx_pos utrp1) (tx_buf utrp1) = [0, 0] @ concat (map word_bytes ws)"
proof -
  from assms(3) obtain w rest where ws: "ws = w # rest" by (cases ws) auto
  let ?u = "utrp\<lparr>tx_pos := 4,
                    tx_buf := (tx_buf utrp)[0 := 0, 1 := 0, 2 := ucast (drop_bit 8 w),
                                            3 := ucast w]\<rparr>"
  have a: "trp_append_tx utrp w = Some (True, ?u)"
    using assms(1,2) by (rule trp_append_tx_first)
  have "\<exists>utrp1. append_words ?u rest = Some (True, utrp1)
           \<and> tx_pos utrp1 = tx_pos ?u + 2 * length rest
           \<and> length (tx_buf utrp1) = UDP_PACKET_SIZE
           \<and> take (tx_pos utrp1) (tx_buf utrp1)
               = take (tx_pos ?u) (tx_buf ?u) @ concat (map word_bytes rest)"
    using assms(2,4) ws by (intro append_words_next) simp_all
  then obtain utrp1 where
    r: "append_words ?u rest = Some (True, utrp1)"
    and p: "tx_pos utrp1 = tx_pos ?u + 2 * length rest"
    and l: "length (tx_buf utrp1) = UDP_PACKET_SIZE"
    and t: "take (tx_pos utrp1) (tx_buf utrp1)
              = take (tx_pos ?u) (tx_buf ?u) @ concat (map word_bytes rest)"
    by blast
  have "take (tx_pos ?u) (tx_buf ?u) = [0, 0] @ word_bytes w"
    using assms(2) by (simp add: take_four_updates word_bytes_def UDP_PACKET_SIZE_def)
  with a r p l t ws show ?thesis by simp
qed

lemma take_header_updates:
  assumes "take p xs = [x, y] @ C"
  shows "take p (xs[0 := a, 1 := b]) = [a, b] @ C"
proof -
  have "take p (xs[0 := a, 1 := b]) = (take p xs)[0 := a, 1 := b]"
    by (simp add: take_update_swap)
  with assms show ?thesis by simp
qed

lemma trp_send_frame:
  assumes "tx_pos utrp = 2 + 2 * n" and "n < 65536"
    and "length (tx_buf utrp) = UDP_PACKET_SIZE" and "tx_pos utrp \<le> UDP_PACKET_SIZE"
    and "take (tx_pos utrp) (tx_buf utrp) = [x, y] @ C"
  shows "\<exists>utrp2. trp_send True utrp = Some (True, word_bytes (of_nat n) @ C, utrp2)
           \<and> tx_pos utrp2 = 0"
proof -
  have d: "(of_nat (tx_pos utrp div 2) - 1 :: 16 word) = of_nat n"
    using assms(1) by simp
  have "take (tx_pos utrp)
          ((tx_buf utrp)[0 := ucast (drop_bit 8 (of_nat n :: 16 word)), 1 := ucast (of_nat n :: 16 word)])
        = word_bytes (of_nat n) @ C"
    using take_header_updates [OF assms(5)] by (simp add: word_bytes_def)
  then show ?thesis
    using assms(3,4) d
    by (simp add: trp_send_def store_def Let_def UDP_PACKET_SIZE_def)
qed

lemma all_ones_bytes:
  "(ucast (drop_bit 8 (- 1 :: 16 word)) :: 8 word) = 255" "(ucast (- 1 :: 16 word) :: 8 word) = 255"
  "(ucast (mask 8 :: 16 word) :: 8 word) = 255"
proof -
  have m: "(255 :: 8 word) = - 1" by simp
  show "(ucast (drop_bit 8 (- 1 :: 16 word)) :: 8 word) = 255"
    unfolding m by (rule bit_word_eqI) (simp add: bit_simps)
  show "(ucast (- 1 :: 16 word) :: 8 word) = 255"
    unfolding m by (rule bit_word_eqI) (simp add: bit_simps)
  show "(ucast (mask 8 :: 16 word) :: 8 word) = 255"
    unfolding m by (rule bit_word_eqI) (simp add: bit_simps)
qed

lemma trp_send_empty:
  assumes "tx_pos utrp = 0" and "length (tx_buf utrp) = UDP_PACKET_SIZE"
  shows "\<exists>utrp2. trp_send True utrp = Some (True, [], utrp2)
           \<and> take 2 (tx_buf utrp2) = [0xFF, 0xFF]"
proof -
  have "take 2 ((tx_buf utrp)[0 := 255, Suc 0 := 255]) = take 0 (tx_buf utrp) @ [255, 255]"
    using assms(2) take_two_updates [of 0 "tx_buf utrp" 255 255]
    by (simp add: UDP_PACKET_SIZE_def numeral_2_eq_2)
  then show ?thesis
    using assms
    by (simp add: trp_send_def store_def Let_def UDP_PACKET_SIZE_def all_ones_bytes
        del: mask_eq_exp_minus_1)
qed

subsection \<open>Reading the words back\<close>

lemma trp_get_rx_data_next:
  assumes "rx_pos utrp \<noteq> 0" and "rx_pos utrp < rx_len utrp"
    and "Suc (rx_pos utrp) < length (rx_buf utrp)"
  shows "trp_get_rx_data utrp =
           Some (push_bit 8 (ucast (rx_buf utrp ! rx_pos utrp))
                   OR ucast (rx_buf utrp ! Suc (rx_pos utrp)),
                 utrp\<lparr>rx_pos := rx_pos utrp + 2\<rparr>)"
  using assms by (simp add: trp_get_rx_data_def index_def)

lemma trp_get_rx_data_skip_prefix:
  assumes "rx_pos utrp = 0" and "2 < rx_len utrp"
  shows "trp_get_rx_data utrp = trp_get_rx_data (utrp\<lparr>rx_pos := 2\<rparr>)"
  using assms by (simp add: trp_get_rx_data_def)

lemma get_rx_words_next:
  assumes "rx_pos utrp \<noteq> 0" and "rx_pos utrp + 2 * length ws \<le> rx_len utrp"
    and "take (2 * length ws) (drop (rx_pos utrp) (rx_buf utrp)) = concat (map word_bytes ws)"
  shows "\<exists>utrp1. get_rx_words (length ws) utrp = Some (ws, utrp1)"
  using assms
proof (induction ws arbitrary: utrp)
  case Nil
  then show ?case by simp
next
  case (Cons w ws)
  let ?p = "rx_pos utrp"
  let ?X = "drop ?p (rx_buf utrp)"
  have wb: "word_bytes w = [ucast (drop_bit 8 w), ucast w]"
    by (simp add: word_bytes_def)
  from Cons.prems(3) have
    t: "take (Suc (Suc (2 * length ws))) ?X
          = ucast (drop_bit 8 w) # ucast w # concat (map word_bytes ws)"
    by (simp add: wb)
  then have "length (take (Suc (Suc (2 * length ws))) ?X) = Suc (Suc (length (concat (map word_bytes ws))))"
    by simp
  then have len: "Suc (Suc 0) \<le> length ?X" by (simp add: min_def split: if_splits)
  then have inb: "Suc ?p < length (rx_buf utrp)" by simp
  from t have "take (Suc (Suc (2 * length ws))) ?X ! 0 = ucast (drop_bit 8 w)"
    and "take (Suc (Suc (2 * length ws))) ?X ! Suc 0 = ucast w" by simp_all
  then have "?X ! 0 = ucast (drop_bit 8 w)" and "?X ! Suc 0 = ucast w" by simp_all
  with inb have b: "rx_buf utrp ! ?p = ucast (drop_bit 8 w)" "rx_buf utrp ! Suc ?p = ucast w"
    by simp_all
  have lt: "?p < rx_len utrp" using Cons.prems(2) by simp
  have g: "trp_get_rx_data utrp = Some (w, utrp\<lparr>rx_pos := ?p + 2\<rparr>)"
    using trp_get_rx_data_next [OF Cons.prems(1) lt inb] by (simp add: b word_bytes_join)
  from t have "drop 2 (take (Suc (Suc (2 * length ws))) ?X) = concat (map word_bytes ws)"
    by simp
  then have r: "take (2 * length ws) (drop (?p + 2) (rx_buf utrp)) = concat (map word_bytes ws)"
    by (simp add: drop_take add.commute)
  have "\<exists>utrp1. get_rx_words (length ws) (utrp\<lparr>rx_pos := ?p + 2\<rparr>) = Some (ws, utrp1)"
    using Cons.prems(2) r by (intro Cons.IH) simp_all
  with g show ?case by auto
qed

lemma get_rx_words_frame:
  assumes "rx_pos utrp = 0" and "2 + 2 * length ws \<le> rx_len utrp"
    and "take (2 + 2 * length ws) (rx_buf utrp) = [x, y] @ concat (map word_bytes ws)"
  shows "\<exists>utrp1. get_rx_words (length ws) utrp = Some (ws, utrp1)"
proof (cases ws)
  case Nil
  then show ?thesis by simp
next
  case (Cons w rest)
  let ?u = "utrp\<lparr>rx_pos := 2\<rparr>"
  have s: "trp_get_rx_data utrp = trp_get_rx_data ?u"
    using assms(1,2) Cons by (intro trp_get_rx_data_skip_prefix) simp_all
  from assms(3) have "drop 2 (take (2 + 2 * length ws) (rx_buf utrp)) = concat (map word_bytes ws)"
    by simp
  then have "take (2 * length ws) (drop (rx_pos ?u) (rx_buf ?u)) = concat (map word_bytes ws)"
    by (simp add: drop_take)
  then have "\<exists>utrp1. get_rx_words (length ws) ?u = Some (ws, utrp1)"
    using assms(2) by (intro get_rx_words_next) simp_all
  with s Cons show ?thesis by simp
qed

lemma length_concat_word_bytes: "length (concat (map word_bytes ws)) = 2 * length ws"
  by (induction ws) (simp_all add: word_bytes_def)

text \<open>
  Claim C8, as the code has it. For every sequence of at most 510 words,
  appending the words to a cleared TX buffer succeeds and \<^verbatim>\<open>send\<close> succeeds. For a
  sequence that is not empty the datagram sent is the frame of the wire format:
  the word count in two bytes, most significant first, then every word in two
  bytes, most significant first. For the empty sequence nothing was appended,
  \<^verbatim>\<open>tx_pos\<close> is still 0 and the datagram has no bytes. In both cases a receiver
  that holds the datagram at the start of its RX buffer, with \<^verbatim>\<open>rx_pos = 0\<close> and an
  \<^verbatim>\<open>rx_len\<close> that covers it, gets exactly the words, in order, from one
  \<^verbatim>\<open>get_rx_data\<close> call per word.
\<close>

theorem transport_framing:
  assumes "length ws \<le> 510" and "length (tx_buf utrp) = UDP_PACKET_SIZE"
  shows "\<exists>utrp1 datagram utrp2.
           append_words (trp_clear_tx utrp) ws = Some (True, utrp1)
           \<and> trp_send True utrp1 = Some (True, datagram, utrp2)
           \<and> datagram = (if ws = [] then [] else spec_frame ws)
           \<and> (\<forall>rx. rx_pos rx = 0 \<and> length datagram \<le> rx_len rx
                    \<and> take (length datagram) (rx_buf rx) = datagram
                  \<longrightarrow> (\<exists>rx1. get_rx_words (length ws) rx = Some (ws, rx1)))"
proof (cases "ws = []")
  case True
  have c: "tx_pos (trp_clear_tx utrp) = 0" "length (tx_buf (trp_clear_tx utrp)) = UDP_PACKET_SIZE"
    using assms(2) by (simp_all add: trp_clear_tx_def)
  from trp_send_empty [OF c] obtain utrp2 where
    "trp_send True (trp_clear_tx utrp) = Some (True, [], utrp2)" by blast
  with True show ?thesis by simp
next
  case False
  let ?n = "length ws"
  let ?C = "concat (map word_bytes ws)"
  have c: "tx_pos (trp_clear_tx utrp) = 0" "length (tx_buf (trp_clear_tx utrp)) = UDP_PACKET_SIZE"
    using assms(2) by (simp_all add: trp_clear_tx_def)
  have b: "2 + 2 * ?n \<le> UDP_PACKET_SIZE"
    using assms(1) by (simp add: UDP_PACKET_SIZE_def)
  from append_words_cleared [OF c False b] obtain utrp1 where
    a: "append_words (trp_clear_tx utrp) ws = Some (True, utrp1)"
    and p: "tx_pos utrp1 = 2 + 2 * ?n"
    and l: "length (tx_buf utrp1) = UDP_PACKET_SIZE"
    and t: "take (tx_pos utrp1) (tx_buf utrp1) = [0, 0] @ ?C"
    by blast
  have n: "?n < 65536" using assms(1) by simp
  have pb: "tx_pos utrp1 \<le> UDP_PACKET_SIZE" using p b by simp
  from trp_send_frame [OF p n l pb t] obtain utrp2 where
    s: "trp_send True utrp1 = Some (True, word_bytes (of_nat ?n) @ ?C, utrp2)" by blast
  have f: "word_bytes (of_nat ?n) @ ?C = spec_frame ws" by (simp add: spec_frame_def)
  have len: "length (spec_frame ws) = 2 + 2 * ?n"
    by (simp add: spec_frame_def length_concat_word_bytes word_bytes_def)
  have rcv: "\<exists>rx1. get_rx_words ?n rx = Some (ws, rx1)"
    if "rx_pos rx = 0" "length (spec_frame ws) \<le> rx_len rx"
      "take (length (spec_frame ws)) (rx_buf rx) = spec_frame ws" for rx
  proof -
    have "take (2 + 2 * ?n) (rx_buf rx)
            = [ucast (drop_bit 8 (of_nat ?n :: 16 word)), ucast (of_nat ?n :: 16 word)] @ ?C"
      using that(3) len by (simp add: spec_frame_def word_bytes_def)
    moreover have "2 + 2 * ?n \<le> rx_len rx" using that(2) len by simp
    ultimately show ?thesis using that(1) by (intro get_rx_words_frame)
  qed
  from a s f False rcv show ?thesis by auto
qed

text \<open>The theorem for the words 0x1234 and 0x5678.\<close>

lemma spec_frame_example:
  "spec_frame [0x1234, 0x5678] = [0, 2, 0x12, 0x34, 0x56, 0x78]"
  by (simp add: spec_frame_def word_bytes_def)

theorem transport_framing_witness:
  "length [0x1234, 0x5678 :: 16 word] \<le> 510
   \<and> length (tx_buf example_transport) = UDP_PACKET_SIZE
   \<and> (\<exists>utrp1 utrp2.
         append_words (trp_clear_tx example_transport) [0x1234, 0x5678] = Some (True, utrp1)
         \<and> trp_send True utrp1 = Some (True, [0, 2, 0x12, 0x34, 0x56, 0x78], utrp2))
   \<and> rx_pos example_receiver = 0 \<and> 6 \<le> rx_len example_receiver
   \<and> take 6 (rx_buf example_receiver) = [0, 2, 0x12, 0x34, 0x56, 0x78]
   \<and> (\<exists>rx1. get_rx_words 2 example_receiver = Some ([0x1234, 0x5678], rx1))"
proof -
  let ?ws = "[0x1234, 0x5678 :: 16 word]"
  have a: "length ?ws \<le> 510" by simp
  have b: "length (tx_buf example_transport) = UDP_PACKET_SIZE"
    by (simp add: example_transport_def UDP_PACKET_SIZE_def)
  have r: "rx_pos example_receiver = 0" "6 \<le> rx_len example_receiver"
    "take 6 (rx_buf example_receiver) = [0, 2, 0x12, 0x34, 0x56, 0x78]"
    by (simp_all add: example_receiver_def example_transport_def)
  from transport_framing [OF a b] obtain utrp1 datagram utrp2 where
    s: "append_words (trp_clear_tx example_transport) ?ws = Some (True, utrp1)"
       "trp_send True utrp1 = Some (True, datagram, utrp2)"
    and d: "datagram = (if ?ws = [] then [] else spec_frame ?ws)"
    and g: "\<forall>rx. rx_pos rx = 0 \<and> length datagram \<le> rx_len rx
                 \<and> take (length datagram) (rx_buf rx) = datagram
               \<longrightarrow> (\<exists>rx1. get_rx_words (length ?ws) rx = Some (?ws, rx1))"
    by blast
  from d have d': "datagram = [0, 2, 0x12, 0x34, 0x56, 0x78]"
    by (simp only: spec_frame_example) simp
  have lw: "length ?ws = 2" by simp
  have h: "rx_pos example_receiver = 0 \<and> length datagram \<le> rx_len example_receiver
             \<and> take (length datagram) (rx_buf example_receiver) = datagram"
  proof -
    have ld: "length datagram = 6" using d' by simp
    show ?thesis unfolding ld using r d' by simp
  qed
  from g h have "\<exists>rx1. get_rx_words (length ?ws) example_receiver = Some (?ws, rx1)"
    by blast
  then have "\<exists>rx1. get_rx_words 2 example_receiver = Some (?ws, rx1)"
    unfolding lw .
  with a b s d' r show ?thesis by blast
qed

text \<open>
  Claim C8 as stated has the word count in front of every frame. For the empty
  sequence \<^verbatim>\<open>send\<close> hands zero bytes to \<^verbatim>\<open>sendto\<close>, where the frame of the wire
  format is the two bytes of the count 0.
\<close>

theorem transport_empty_frame_counterexample:
  "length ([] :: 16 word list) \<le> 510
   \<and> append_words (trp_clear_tx example_transport) [] = Some (True, trp_clear_tx example_transport)
   \<and> map_option (fst \<circ> snd) (trp_send True (trp_clear_tx example_transport)) = Some []
   \<and> spec_frame [] = [0, 0]"
  by (simp add: trp_send_def trp_clear_tx_def example_transport_def store_def Let_def
      spec_frame_def word_bytes_def)

section \<open>Breakpoints: claim C9\<close>













end
